theory Spec2Isabelle
  imports Main
begin

section \<open>Strings and regular expressions of the host language\<close>

text \<open>
  The program is TypeScript: it runs the Gradle command line, captures its output and
  extracts fields with regular expressions. A string is modelled as a \<^typ>\<open>string\<close>, so
  the development covers outputs whose code units are below 256; the line terminators
  that exist there are line feed and carriage return.

  \<open>String.prototype.match\<close> with a non-global regular expression is a backtracking
  search: the start positions are tried from left to right, and at each start the
  alternatives are tried in the order the quantifiers prescribe (a lazy star shortest
  first, a greedy quantifier longest first). \<open>rx_run\<close> returns, for a pattern and a state
  (position, rest of the input, captures), every way the pattern matches there, in that
  order; the match found by the engine is the head of the list.
\<close>

definition line_terminator :: "char \<Rightarrow> bool" where
  "line_terminator c = (c = CHR 0x0A \<or> c = CHR 0x0D)"

definition is_digit :: "char \<Rightarrow> bool" where
  "is_digit c = (c \<in> set ''0123456789'')"

datatype cclass =
    AnyChar            \<comment> \<open>\<open>[\S\s]\<close>\<close>
  | Dot                \<comment> \<open>\<open>.\<close>: any character but a line terminator\<close>
  | OneOf string       \<comment> \<open>\<open>[...]\<close> listing its members\<close>
  | Digit              \<comment> \<open>\<open>\d\<close>\<close>
  | NonDigit           \<comment> \<open>\<open>[^\d]\<close>\<close>

fun in_class :: "cclass \<Rightarrow> char \<Rightarrow> bool" where
  "in_class AnyChar c = True"
| "in_class Dot c = (\<not> line_terminator c)"
| "in_class (OneOf cs) c = (c \<in> set cs)"
| "in_class Digit c = is_digit c"
| "in_class NonDigit c = (\<not> is_digit c)"

datatype regex =
    Lit string             \<comment> \<open>a run of literal characters\<close>
  | OneChar cclass         \<comment> \<open>one character of a class\<close>
  | Bol                    \<comment> \<open>\<open>^\<close>\<close>
  | Eol                    \<comment> \<open>\<open>$\<close>\<close>
  | LazyStar cclass        \<comment> \<open>\<open>C*?\<close>\<close>
  | Plus cclass            \<comment> \<open>\<open>C+\<close>\<close>
  | Rep cclass nat nat     \<comment> \<open>\<open>C{m,n}\<close>\<close>
  | Group nat regex        \<comment> \<open>a capture group with its number\<close>
  | Seq regex regex
  | Alt regex regex        \<comment> \<open>\<open>a|b\<close>\<close>
  | Opt regex              \<comment> \<open>\<open>(?:a)?\<close>\<close>

type_synonym captures = "nat \<rightharpoonup> string"

type_synonym mstate = "nat \<times> string \<times> captures"

fun lazy_star :: "cclass \<Rightarrow> nat \<Rightarrow> string \<Rightarrow> (nat \<times> string) list" where
  "lazy_star C i [] = [(i, [])]"
| "lazy_star C i (c # cs) =
     (i, c # cs) # (if in_class C c then lazy_star C (Suc i) cs else [])"

fun greedy_star :: "cclass \<Rightarrow> nat \<Rightarrow> string \<Rightarrow> (nat \<times> string) list" where
  "greedy_star C i [] = [(i, [])]"
| "greedy_star C i (c # cs) =
     (if in_class C c then greedy_star C (Suc i) cs else []) @ [(i, c # cs)]"

fun greedy_reps :: "cclass \<Rightarrow> nat \<Rightarrow> nat \<Rightarrow> nat \<Rightarrow> string \<Rightarrow> (nat \<times> string) list" where
  "greedy_reps C m n i [] = (if m = 0 then [(i, [])] else [])"
| "greedy_reps C m n i (c # cs) =
     (if 0 < n \<and> in_class C c then greedy_reps C (m - 1) (n - 1) (Suc i) cs else [])
       @ (if m = 0 then [(i, c # cs)] else [])"

fun rx_run :: "regex \<Rightarrow> mstate \<Rightarrow> mstate list" where
  "rx_run (Lit l) (i, s, g) =
     (if take (length l) s = l then [(i + length l, drop (length l) s, g)] else [])"
| "rx_run (OneChar C) (i, s, g) =
     (case s of [] \<Rightarrow> [] | c # cs \<Rightarrow> if in_class C c then [(Suc i, cs, g)] else [])"
| "rx_run Bol (i, s, g) = (if i = 0 then [(i, s, g)] else [])"
| "rx_run Eol (i, s, g) = (if s = [] then [(i, s, g)] else [])"
| "rx_run (LazyStar C) (i, s, g) = map (\<lambda>(j, t). (j, t, g)) (lazy_star C i s)"
| "rx_run (Plus C) (i, s, g) =
     (case s of [] \<Rightarrow> []
      | c # cs \<Rightarrow> if in_class C c then map (\<lambda>(j, t). (j, t, g)) (greedy_star C (Suc i) cs)
                  else [])"
| "rx_run (Rep C m n) (i, s, g) = map (\<lambda>(j, t). (j, t, g)) (greedy_reps C m n i s)"
| "rx_run (Group k r) (i, s, g) =
     map (\<lambda>(j, t, h). (j, t, h(k \<mapsto> take (j - i) s))) (rx_run r (i, s, g))"
| "rx_run (Seq a b) st = concat (map (rx_run b) (rx_run a st))"
| "rx_run (Alt a b) st = rx_run a st @ rx_run b st"
| "rx_run (Opt a) st = rx_run a st @ [st]"

fun rx_search :: "regex \<Rightarrow> nat \<Rightarrow> string \<Rightarrow> captures option" where
  "rx_search r i [] =
     (case rx_run r (i, [], Map.empty) of [] \<Rightarrow> None | m # _ \<Rightarrow> Some (snd (snd m)))"
| "rx_search r i (c # cs) =
     (case rx_run r (i, c # cs, Map.empty) of
        [] \<Rightarrow> rx_search r (Suc i) cs
      | m # _ \<Rightarrow> Some (snd (snd m)))"

text \<open>\<open>str_match s r\<close> is \<open>s.match(r)\<close>: \<open>None\<close> is \<open>null\<close>, and entry \<open>k\<close> of the
  match array is \<open>m k\<close>, with \<open>None\<close> for \<open>undefined\<close>.\<close>

definition str_match :: "string \<Rightarrow> regex \<Rightarrow> captures option" where
  "str_match s r = rx_search r 0 s"

text \<open>\<open>s.split('\n')\<close>: the pieces between line feeds; the result is never empty.\<close>

fun split_nl :: "string \<Rightarrow> string list" where
  "split_nl [] = [[]]"
| "split_nl (c # cs) =
     (if c = CHR 0x0A then [] # split_nl cs
      else (case split_nl cs of [] \<Rightarrow> [[c]] | l # ls \<Rightarrow> (c # l) # ls))"

section \<open>Semantic versions\<close>

text \<open>
  The program calls \<open>semver.coerce\<close> and \<open>semver.satisfies\<close> of the \<open>semver\<close> package,
  a dependency that is not part of the sources; this section models the two calls.
\<close>

record semver =
  major :: int
  minor :: int
  patch :: int

definition coerce_regex :: regex where
  "coerce_regex =
     Seq (Group 1 (Alt Bol (OneChar NonDigit)))
    (Seq (Group 2 (Rep Digit 1 16))
    (Seq (Opt (Seq (Lit ''.'') (Group 3 (Rep Digit 1 16))))
    (Seq (Opt (Seq (Lit ''.'') (Group 4 (Rep Digit 1 16))))
         (Alt Eol (OneChar NonDigit)))))"

definition digit_value :: "char \<Rightarrow> int" where
  "digit_value c = of_char c - 48"

definition digits_value :: "string \<Rightarrow> int" where
  "digits_value ds = foldl (\<lambda>n c. 10 * n + digit_value c) 0 ds"

definition MAX_SAFE_INTEGER :: int where
  "MAX_SAFE_INTEGER = 9007199254740991"

definition numeric_identifier :: "string \<Rightarrow> int option" where
  "numeric_identifier ds =
     (if ds \<noteq> ''0'' \<and> take 1 ds = ''0'' then None
      else if MAX_SAFE_INTEGER < digits_value ds then None
      else Some (digits_value ds))"

definition parse :: "string \<Rightarrow> string \<Rightarrow> string \<Rightarrow> semver option" where
  "parse ma mi pa =
     (case numeric_identifier ma of
        None \<Rightarrow> None
      | Some a \<Rightarrow>
          (case numeric_identifier mi of
             None \<Rightarrow> None
           | Some b \<Rightarrow>
               (case numeric_identifier pa of
                  None \<Rightarrow> None
                | Some c \<Rightarrow> Some \<lparr>major = a, minor = b, patch = c\<rparr>)))"

text \<open>\<open>or_zero x\<close> is \<open>x || '0'\<close>.\<close>

definition or_zero :: "string option \<Rightarrow> string" where
  "or_zero x = (case x of None \<Rightarrow> ''0'' | Some v \<Rightarrow> if v = [] then ''0'' else v)"

text \<open>
  Modelled from the spec: \<open>semver.coerce\<close>, of the \<open>semver\<close> package, is missing from the
  sources. The spec asks for "standard semantic-version coercion rules (leading
  non-numeric prefixes stripped, missing components defaulted to 0)", "tolerant of
  prefixes/suffixes". The standard rules are those of the package: the first place where
  the pattern \<open>(^|[^\d])(\d{1,16})(?:\.(\d{1,16}))?(?:\.(\d{1,16}))?(?:$|[^\d])\<close> matches
  gives the components, a missing one is \<open>0\<close>, and the answer is \<open>null\<close> when nothing
  matches, or when a component has a leading zero or exceeds the largest safe integer.
\<close>

definition coerce :: "string \<Rightarrow> semver option" where
  "coerce version =
     (case str_match version coerce_regex of
        None \<Rightarrow> None
      | Some m \<Rightarrow>
          (case m 2 of None \<Rightarrow> None
           | Some ma \<Rightarrow> parse ma (or_zero (m 3)) (or_zero (m 4))))"

definition compareIdentifiers :: "int \<Rightarrow> int \<Rightarrow> int" where
  "compareIdentifiers a b = (if a = b then 0 else if a < b then - 1 else 1)"

definition compareMain :: "semver \<Rightarrow> semver \<Rightarrow> int" where
  "compareMain a b =
     (if compareIdentifiers (major a) (major b) \<noteq> 0 then compareIdentifiers (major a) (major b)
      else if compareIdentifiers (minor a) (minor b) \<noteq> 0 then compareIdentifiers (minor a) (minor b)
      else compareIdentifiers (patch a) (patch b))"

text \<open>
  Modelled from the spec: \<open>semver.satisfies\<close>, of the \<open>semver\<close> package, is missing from
  the sources. The spec asks for "standard semantic-version ordering (major, then minor,
  then patch, each compared numerically)". \<open>satisfies_gte v t\<close> is
  \<open>semver.satisfies(v, '>=t')\<close> for a version \<open>v\<close> without prerelease tag, which is what
  \<open>coerce\<close> returns: the package compares major, minor and patch in turn.
\<close>

definition satisfies_gte :: "semver \<Rightarrow> semver \<Rightarrow> bool" where
  "satisfies_gte v t = (0 \<le> compareMain v t)"

section \<open>The command line, its results and the trace of effects\<close>

text \<open>
  Every \<open>throw new Error(...)\<close> of the program is a value of \<open>error\<close> with its message.
  \<open>ExecutionError\<close> stands for the errors raised after a non-zero exit status
  ("Failed to execute ..."), \<open>ParseError\<close> for those raised when the version cannot be
  extracted from the banner or cannot be coerced.
\<close>

datatype error = ExecutionError string | ParseError string

record exec_output =
  exitCode :: int
  stdout :: string
  stderr :: string

record invocation =
  inv_command :: string
  inv_args :: "string list"
  inv_cwd :: string
  inv_silent :: bool

text \<open>What an operation does besides returning: the processes it runs and the
  diagnostics it writes (\<open>core.warning\<close>, \<open>core.error\<close>, \<open>core.setFailed\<close>,
  \<open>core.debug\<close>), in order. The timing line written with \<open>core.info\<close> depends on the
  wall clock only and is not recorded.\<close>

datatype event =
    Exec invocation
  | Warning string
  | ErrorLog string
  | SetFailed string
  | Debug string

text \<open>The surroundings of a call: what each command line answers, and whether the
  action runs in debug mode. Every command line is answered with a result
  (\<open>ignoreReturnCode\<close> is set, so a non-zero status is a result too); a process that
  cannot be started at all is outside the model.\<close>

record env =
  run :: "string \<Rightarrow> string list \<Rightarrow> string \<Rightarrow> exec_output"
  isDebug :: bool

definition getExecOutput :: "env \<Rightarrow> string \<Rightarrow> string list \<Rightarrow> string \<Rightarrow> exec_output \<times> event list" where
  "getExecOutput e cmd as dir =
     (run e cmd as dir,
      [Exec \<lparr>inv_command = cmd, inv_args = as, inv_cwd = dir, inv_silent = (\<not> isDebug e)\<rparr>])"

definition retrieveGradleCLI :: "bool \<Rightarrow> string" where
  "retrieveGradleCLI useGradlew = (if useGradlew then ''./gradlew'' else ''gradle'')"

definition verifyModule :: "string \<Rightarrow> string" where
  "verifyModule m = (if m = '':'' then [] else m)"

section \<open>The version of Gradle\<close>

text \<open>The pattern of line 43 is a regular-expression literal: inside the literal the
  class in front lists the backslash, \<open>S\<close>, the backslash and \<open>s\<close>.\<close>

definition version_regex :: regex where
  "version_regex =
     Seq (LazyStar (OneOf [CHR 0x5C, CHR ''S'', CHR 0x5C, CHR ''s'']))
    (Seq (Lit ''-\<newline>'')
    (Seq (Group 1 (Lit ''Gradle ''))
    (Seq (Group 2 (Plus Dot))
         (Lit ''\<newline>-''))))"

definition fetchGradleVersion :: "env \<Rightarrow> bool \<Rightarrow> string \<Rightarrow> (error + string option) \<times> event list" where
  "fetchGradleVersion e useGradlew gradleProjectPath =
     (let command = retrieveGradleCLI useGradlew;
          (versionOutput, t) = getExecOutput e command [''--version''] gradleProjectPath
      in if exitCode versionOutput \<noteq> 0 then
           (Inl (ExecutionError (''Failed to execute '' @ [CHR 0x27] @ command @ '' --version'' @ [CHR 0x27])),
            t @ [ErrorLog (stderr versionOutput),
                 SetFailed ([CHR 0x27] @ command @ '' --version'' @ [CHR 0x27] @ '' command failed!'')])
         else
           (case str_match (stdout versionOutput) version_regex of
              Some version \<Rightarrow> (Inr (version 2), t)
            | None \<Rightarrow>
                (Inl (ParseError ''Failed to extract gradle version''),
                 t @ (if isDebug e
                      then [Debug (''Failed to extract gradle version from: '' @ stdout versionOutput)]
                      else []))))"

text \<open>\<open>template x\<close> is how a template literal prints a value that may be
  \<open>undefined\<close>.\<close>

definition template :: "string option \<Rightarrow> string" where
  "template x = (case x of None \<Rightarrow> ''undefined'' | Some v \<Rightarrow> v)"

definition threshold :: semver where
  "threshold = \<lparr>major = 7, minor = 5, patch = 0\<rparr>"

text \<open>Lines 11 to 23 of \<open>singlePropertySupport\<close>: what is done with the version once
  it is fetched. \<open>semver.coerce\<close> answers \<open>null\<close> for a value that is no string.\<close>

definition versionGate :: "string option \<Rightarrow> (error + bool) \<times> event list" where
  "versionGate version =
     (case (case version of None \<Rightarrow> None | Some v \<Rightarrow> coerce v) of
        Some semverVersion \<Rightarrow>
          if satisfies_gte semverVersion threshold then (Inr True, [])
          else (Inr False,
                [Warning (''The current gradle version does not support retrieving a single property. Found version: ''
                          @ template version @ ''.'')])
      | None \<Rightarrow> (Inl (ParseError (''Failed to parse gradle version: '' @ template version)), []))"

definition singlePropertySupport :: "env \<Rightarrow> bool \<Rightarrow> string \<Rightarrow> (error + bool) \<times> event list" where
  "singlePropertySupport e useGradlew gradleProjectPath =
     (case fetchGradleVersion e useGradlew gradleProjectPath of
        (Inl err, t) \<Rightarrow> (Inl err, t)
      | (Inr version, t) \<Rightarrow>
          (case versionGate version of (r, t') \<Rightarrow> (r, t @ t')))"

section \<open>Dependencies and build environment\<close>

text \<open>The test of line 67, \<open>gradleBuildConfiguration !== undefined &&
  gradleBuildConfiguration !== ''\<close>, holds exactly for \<open>Some (c # cs)\<close>.\<close>

definition retrieveGradleDependencies ::
    "env \<Rightarrow> bool \<Rightarrow> string \<Rightarrow> string \<Rightarrow> string option \<Rightarrow> (error + string) \<times> event list" where
  "retrieveGradleDependencies e useGradlew gradleProjectPath gradleBuildModule gradleBuildConfiguration =
     (let command = retrieveGradleCLI useGradlew;
          module = verifyModule gradleBuildModule
      in case gradleBuildConfiguration of
           Some (c # cs) \<Rightarrow>
             (let configuration = c # cs;
                  (dependencyList, t) =
                     getExecOutput e command
                       [''--console'', ''plain'', module @ '':dependencies'',
                        ''--configuration'', configuration]
                       gradleProjectPath
              in if exitCode dependencyList \<noteq> 0 then
                   (Inl (ExecutionError
                      (''Failed to execute '' @ [CHR 0x27] @ command @ '' '' @ module
                         @ '':dependencies --configuration '' @ configuration @ [CHR 0x27])),
                    t @ [ErrorLog (stderr dependencyList),
                         SetFailed ([CHR 0x27] @ command @ '' '' @ module
                           @ '':dependencies --configuration '' @ configuration @ [CHR 0x27]
                           @ '' resolution failed!'')])
                 else (Inr (stdout dependencyList), t))
         | _ \<Rightarrow>
             (let (dependencyList, t) =
                     getExecOutput e command
                       [''--console'', ''plain'', module @ '':dependencies''] gradleProjectPath
              in if exitCode dependencyList \<noteq> 0 then
                   (Inl (ExecutionError
                      (''Failed to execute '' @ [CHR 0x27] @ command @ '' '' @ module
                         @ '':dependencies'' @ [CHR 0x27])),
                    t @ [ErrorLog (stderr dependencyList),
                         SetFailed ([CHR 0x27] @ command @ '' '' @ module
                           @ '':dependencies resolution failed!'')])
                 else (Inr (stdout dependencyList), t)))"

definition retrieveGradleBuildEnvironment :: "env \<Rightarrow> bool \<Rightarrow> string \<Rightarrow> (error + string) \<times> event list" where
  "retrieveGradleBuildEnvironment e useGradlew gradleProjectPath =
     (let command = retrieveGradleCLI useGradlew;
          (dependencyList, t) =
             getExecOutput e command [''--console'', ''plain'', '':buildEnvironment'']
               gradleProjectPath
      in if exitCode dependencyList \<noteq> 0 then
           (Inl (ExecutionError
              (''Failed to execute '' @ [CHR 0x27] @ command @ '' :buildEnvironment'' @ [CHR 0x27])),
            t @ [ErrorLog (stderr dependencyList),
                 SetFailed ([CHR 0x27] @ command @ '' :buildEnvironment'' @ [CHR 0x27]
                   @ '' resolution failed!'')])
         else (Inr (stdout dependencyList), t))"

section \<open>Properties\<close>

text \<open>
  The two patterns of lines 187 and 189 are built with \<open>new RegExp\<close> from a template
  literal, so the class in front is \<open>[\S\s]\<close>, any character, and the property name is
  pasted into the source of the pattern. The callers pass \<open>buildFile\<close> and \<open>name\<close>; for a
  name of letters, digits and underscores the pasted text stands for itself, which is
  how it is modelled. \<open>plain_name\<close> says that a name is of this kind.
\<close>

definition plain_name :: "string \<Rightarrow> bool" where
  "plain_name p =
     (\<forall>c \<in> set p. c \<in> set ''abcdefghijklmnopqrstuvwxyzABCDEFGHIJKLMNOPQRSTUVWXYZ0123456789_'')"

definition property_regex :: "string \<Rightarrow> regex" where
  "property_regex property =
     Seq (LazyStar AnyChar)
    (Seq (Group 1 (Lit (property @ '': '')))
    (Seq (Group 2 (Plus Dot))
         (Lit ''\<newline>'')))"

definition property_line_regex :: "string \<Rightarrow> regex" where
  "property_line_regex property =
     Seq (LazyStar AnyChar)
    (Seq (Group 1 (Lit (property @ '': '')))
         (Group 2 (Plus Dot)))"

text \<open>Lines 184 to 190: the match array, or \<open>None\<close> for \<open>null\<close> and for the
  \<open>undefined\<close> that \<open>find\<close> answers when no line matches.\<close>

definition matchProperty :: "bool \<Rightarrow> string \<Rightarrow> string \<Rightarrow> captures option" where
  "matchProperty singlePropertySupported property output =
     (if singlePropertySupported then str_match output (property_regex property)
      else (case List.find (\<lambda>it. \<not> Option.is_none it)
                   (map (\<lambda>it. str_match it (property_line_regex property)) (split_nl output)) of
              None \<Rightarrow> None
            | Some it \<Rightarrow> it))"

definition retrieveGradleProperty ::
    "env \<Rightarrow> bool \<Rightarrow> string \<Rightarrow> string \<Rightarrow> string \<Rightarrow> (error + string option) \<times> event list" where
  "retrieveGradleProperty e useGradlew gradleProjectPath gradleBuildModule property =
     (case singlePropertySupport e useGradlew gradleProjectPath of
        (Inl err, t) \<Rightarrow> (Inl err, t)
      | (Inr singlePropertySupported, t) \<Rightarrow>
          (let command = retrieveGradleCLI useGradlew;
               module = verifyModule gradleBuildModule;
               commandArgs =
                 (if singlePropertySupported
                  then [module @ '':properties'', ''-q'', ''--property'', property]
                  else [module @ '':properties'', ''-q'']);
               (propertyOutput, t') = getExecOutput e command commandArgs gradleProjectPath
           in if exitCode propertyOutput \<noteq> 0 then
                (Inl (ExecutionError
                   (''Failed to execute '' @ [CHR 0x27] @ command @ '' '' @ module
                      @ '':properties'' @ [CHR 0x27])),
                 t @ t' @ [ErrorLog (stderr propertyOutput),
                           SetFailed ([CHR 0x27] @ command @ '' '' @ module @ '':properties''
                             @ [CHR 0x27] @ '' retrieval failed!'')])
              else
                (case matchProperty singlePropertySupported property (stdout propertyOutput) of
                   Some matched \<Rightarrow> (Inr (matched 2), t @ t')
                 | None \<Rightarrow>
                     (Inr None,
                      t @ t' @ [Warning (''Failed to retrieve the '' @ [CHR 0x27] @ property
                        @ [CHR 0x27] @ '' for '' @ [CHR 0x27] @ gradleBuildModule @ [CHR 0x27])]))))"

definition retrieveGradleBuildPath ::
    "env \<Rightarrow> bool \<Rightarrow> string \<Rightarrow> string \<Rightarrow> (error + string option) \<times> event list" where
  "retrieveGradleBuildPath e useGradlew gradleProjectPath gradleBuildModule =
     retrieveGradleProperty e useGradlew gradleProjectPath gradleBuildModule ''buildFile''"

definition retrieveGradleProjectName ::
    "env \<Rightarrow> bool \<Rightarrow> string \<Rightarrow> (error + string option) \<times> event list" where
  "retrieveGradleProjectName e useGradlew gradleProjectPath =
     retrieveGradleProperty e useGradlew gradleProjectPath '':'' ''name''"

section \<open>Reading the patterns and the traces\<close>

text \<open>The processes an operation has run, in order.\<close>

fun invocations :: "event list \<Rightarrow> invocation list" where
  "invocations [] = []"
| "invocations (Exec i # t) = i # invocations t"
| "invocations (_ # t) = invocations t"

text \<open>The command line an operation hands to the process runner, as an invocation,
  and what the surroundings answer to it.\<close>

definition issued :: "env \<Rightarrow> bool \<Rightarrow> string list \<Rightarrow> string \<Rightarrow> invocation" where
  "issued e useGradlew as dir =
     \<lparr>inv_command = retrieveGradleCLI useGradlew, inv_args = as, inv_cwd = dir,
      inv_silent = (\<not> isDebug e)\<rparr>"

definition answer :: "env \<Rightarrow> bool \<Rightarrow> string list \<Rightarrow> string \<Rightarrow> exec_output" where
  "answer e useGradlew as dir = run e (retrieveGradleCLI useGradlew) as dir"

definition dependenciesArgs :: "string \<Rightarrow> string option \<Rightarrow> string list" where
  "dependenciesArgs m cfg =
     [''--console'', ''plain'', verifyModule m @ '':dependencies'']
       @ (case cfg of None \<Rightarrow> [] | Some c \<Rightarrow> if c = [] then [] else [''--configuration'', c])"

definition propertiesArgs :: "string \<Rightarrow> bool \<Rightarrow> string \<Rightarrow> string list" where
  "propertiesArgs m single property =
     [verifyModule m @ '':properties'', ''-q'']
       @ (if single then [''--property'', property] else [])"

text \<open>
  The three patterns of the program search for a label, then a value made of at least
  one character that is no line terminator, then a closing text. \<open>labelled_at\<close> reads
  such a value at the very start of a text, \<open>first_labelled\<close> at the first place of the
  text where there is one. \<open>occurs l c out pre v\<close> says that in \<open>out\<close>, after \<open>pre\<close>, come
  the label \<open>l\<close>, the value \<open>v\<close> and the closing text \<open>c\<close>.
\<close>

definition dot_run :: "string \<Rightarrow> string" where
  "dot_run s = takeWhile (\<lambda>c. \<not> line_terminator c) s"

definition labelled_at :: "string \<Rightarrow> string \<Rightarrow> string \<Rightarrow> string option" where
  "labelled_at l c s =
     (if take (length l) s = l \<and> dot_run (drop (length l) s) \<noteq> [] \<and>
         take (length c) (drop (length l + length (dot_run (drop (length l) s))) s) = c
      then Some (dot_run (drop (length l) s)) else None)"

fun first_labelled :: "string \<Rightarrow> string \<Rightarrow> string \<Rightarrow> string option" where
  "first_labelled l c [] = labelled_at l c []"
| "first_labelled l c (x # xs) =
     (case labelled_at l c (x # xs) of
        Some v \<Rightarrow> Some v
      | None \<Rightarrow> first_labelled l c xs)"

definition occurs :: "string \<Rightarrow> string \<Rightarrow> string \<Rightarrow> string \<Rightarrow> string \<Rightarrow> bool" where
  "occurs l c out pre v =
     (v \<noteq> [] \<and> (\<forall>x \<in> set v. \<not> line_terminator x) \<and> (\<exists>rest. out = pre @ l @ v @ c @ rest))"




text \<open>The banner as the specification describes it: a line of dashes, a line that
  begins with \<open>Gradle\<close> and a space followed by a version, another line of dashes.\<close>

definition dashes :: "string \<Rightarrow> bool" where
  "dashes l = (l \<noteq> [] \<and> (\<forall>c \<in> set l. c = CHR ''-''))"

fun spec_banner_lines :: "string list \<Rightarrow> bool" where
  "spec_banner_lines (a # b # c # ls) =
     ((dashes a \<and> take 7 b = ''Gradle '' \<and> drop 7 b \<noteq> [] \<and> dashes c)
      \<or> spec_banner_lines (b # c # ls))"
| "spec_banner_lines _ = False"

definition spec_banner_shape :: "string \<Rightarrow> bool" where
  "spec_banner_shape out = spec_banner_lines (split_nl out)"

text \<open>A Gradle installation for the examples: \<open>--version\<close> exits with 0 and prints
  the banner of the version \<open>ver\<close>, every other command line answers \<open>other\<close>.\<close>

definition gradle_env :: "string \<Rightarrow> exec_output \<Rightarrow> env" where
  "gradle_env ver other =
     \<lparr>run = (\<lambda>cmd as dir.
         if as = [''--version'']
         then \<lparr>exitCode = 0, stdout = ''------\<newline>Gradle '' @ ver @ ''\<newline>------\<newline>'', stderr = []\<rparr>
         else other),
      isDebug = False\<rparr>"

definition prints :: "string \<Rightarrow> exec_output" where
  "prints out = \<lparr>exitCode = 0, stdout = out, stderr = []\<rparr>"

text \<open>An installation whose every command line answers with the same result.\<close>

definition const_env :: "exec_output \<Rightarrow> env" where
  "const_env r = \<lparr>run = (\<lambda>cmd as dir. r), isDebug = False\<rparr>"

section \<open>How the search proceeds\<close>

text \<open>A lazy star in front of a pattern does not change what an unanchored search
  finds: the search tries the same places in the same order.\<close>

lemma rx_search_hit:
  "rx_run r (i, s, Map.empty) = m # ms \<Longrightarrow> rx_search r i s = Some (snd (snd m))"
  by (cases s) simp_all

lemma lazy_run_Nil: "rx_run (Seq (LazyStar C) T) (i, [], g) = rx_run T (i, [], g)"
  by simp

lemma lazy_run_Cons:
  "rx_run (Seq (LazyStar C) T) (i, c # cs, g) =
     rx_run T (i, c # cs, g) @ (if in_class C c then rx_run (Seq (LazyStar C) T) (Suc i, cs, g) else [])"
  by simp

lemma rx_search_lazy: "rx_search (Seq (LazyStar C) T) i s = rx_search T i s"
proof (induction s arbitrary: i)
  case Nil
  show ?case by (simp only: rx_search.simps lazy_run_Nil)
next
  case (Cons c cs)
  let ?R = "Seq (LazyStar C) T"
  show ?case
  proof (cases "rx_run T (i, c # cs, Map.empty)")
    case (Cons m ms)
    then have "rx_run ?R (i, c # cs, Map.empty) = m # (ms @ (if in_class C c then rx_run ?R (Suc i, cs, Map.empty) else []))"
      by (simp only: lazy_run_Cons append_Cons)
    then have "rx_search ?R i (c # cs) = Some (snd (snd m))"
      by (rule rx_search_hit)
    moreover have "rx_search T i (c # cs) = Some (snd (snd m))"
      using Cons by (rule rx_search_hit)
    ultimately show ?thesis by simp
  next
    case Nil
    then have T: "rx_search T i (c # cs) = rx_search T (Suc i) cs" by simp
    have run: "rx_run ?R (i, c # cs, Map.empty) = (if in_class C c then rx_run ?R (Suc i, cs, Map.empty) else [])"
      using Nil by (simp only: lazy_run_Cons append_Nil)
    have "rx_search ?R i (c # cs) = rx_search ?R (Suc i) cs"
    proof (cases "in_class C c \<and> rx_run ?R (Suc i, cs, Map.empty) \<noteq> []")
      case True
      then obtain m ms where ms: "rx_run ?R (Suc i, cs, Map.empty) = m # ms"
        by (cases "rx_run ?R (Suc i, cs, Map.empty)") auto
      then have "rx_search ?R (Suc i) cs = Some (snd (snd m))" by (rule rx_search_hit)
      moreover have "rx_run ?R (i, c # cs, Map.empty) = m # ms" using run True ms by simp
      then have "rx_search ?R i (c # cs) = Some (snd (snd m))" by (rule rx_search_hit)
      ultimately show ?thesis by simp
    next
      case False
      then have "rx_run ?R (i, c # cs, Map.empty) = []" using run by auto
      then show ?thesis by (simp only: rx_search.simps list.case)
    qed
    then show ?thesis using T Cons.IH by simp
  qed
qed

lemma greedy_star_last_only:
  assumes "\<And>n. n < length (takeWhile (in_class C) s) \<Longrightarrow> K (i + n, drop n s) = []"
  shows "concat (map K (greedy_star C i s)) =
           K (i + length (takeWhile (in_class C) s), drop (length (takeWhile (in_class C) s)) s)"
  using assms
proof (induction s arbitrary: i)
  case Nil
  show ?case by simp
next
  case (Cons c cs)
  show ?case
  proof (cases "in_class C c")
    case True
    have "K (i + 0, drop 0 (c # cs)) = []"
      by (rule Cons.prems) (simp add: True)
    then have here: "K (i, c # cs) = []" by simp
    have "\<And>n. n < length (takeWhile (in_class C) cs) \<Longrightarrow> K (Suc i + n, drop n cs) = []"
    proof -
      fix n assume "n < length (takeWhile (in_class C) cs)"
      then have "K (i + Suc n, drop (Suc n) (c # cs)) = []"
        by (intro Cons.prems) (simp add: True)
      then show "K (Suc i + n, drop n cs) = []" by simp
    qed
    then have "concat (map K (greedy_star C (Suc i) cs)) =
        K (Suc i + length (takeWhile (in_class C) cs), drop (length (takeWhile (in_class C) cs)) cs)"
      by (rule Cons.IH)
    then show ?thesis using True here by simp
  next
    case False
    then show ?thesis by simp
  qed
qed

lemma greedy_star_hd:
  "\<exists>ms. greedy_star C i s =
     (i + length (takeWhile (in_class C) s), drop (length (takeWhile (in_class C) s)) s) # ms"
proof (induction s arbitrary: i)
  case Nil
  show ?case by simp
next
  case (Cons c cs)
  show ?case
  proof (cases "in_class C c")
    case True
    from Cons.IH[of "Suc i"] obtain ms where
      "greedy_star C (Suc i) cs =
         (Suc i + length (takeWhile (in_class C) cs), drop (length (takeWhile (in_class C) cs)) cs) # ms"
      by blast
    then show ?thesis using True by simp
  next
    case False
    then show ?thesis by simp
  qed
qed

lemma dot_run_Nil [simp]: "dot_run [] = []"
  by (simp add: dot_run_def)

lemma dot_run_Cons:
  "dot_run (x # xs) = (if line_terminator x then [] else x # dot_run xs)"
  by (simp add: dot_run_def)

lemma dot_run_take: "take (length (dot_run s)) s = dot_run s"
  unfolding dot_run_def by (metis takeWhile_eq_take)

lemma dot_run_class: "takeWhile (in_class Dot) s = dot_run s"
  unfolding dot_run_def by (rule takeWhile_cong) simp_all

lemma dot_run_nth: "n < length (dot_run s) \<Longrightarrow> \<not> line_terminator (s ! n)"
  unfolding dot_run_def
  by (metis nth_mem set_takeWhileD takeWhile_nth)

lemma run_label:
  "rx_run (Seq (Group k (Lit l)) r) (i, s, g) =
     (if take (length l) s = l then rx_run r (i + length l, drop (length l) s, g(k \<mapsto> l)) else [])"
  by simp

lemma run_lit:
  "rx_run (Seq (Lit l) r) st =
     (if take (length l) (fst (snd st)) = l
      then rx_run r (fst st + length l, drop (length l) (fst (snd st)), snd (snd st)) else [])"
  by (cases st) simp

lemma run_value_close:
  assumes "line_terminator y"
  shows "rx_run (Seq (Group k (Plus Dot)) (Lit (y # c))) (i, s, g) =
     (if dot_run s \<noteq> [] \<and> take (Suc (length c)) (drop (length (dot_run s)) s) = y # c
      then [(i + length (dot_run s) + Suc (length c),
             drop (Suc (length c)) (drop (length (dot_run s)) s), g(k \<mapsto> dot_run s))]
      else [])"
proof (cases s)
  case Nil
  then show ?thesis by simp
next
  case (Cons x xs)
  show ?thesis
  proof (cases "line_terminator x")
    case True
    then show ?thesis using Cons by (simp add: dot_run_Cons)
  next
    case False
    define K where "K = (\<lambda>(j, t). rx_run (Lit (y # c)) (j, t, g(k \<mapsto> take (j - i) s)))"
    have run: "rx_run (Seq (Group k (Plus Dot)) (Lit (y # c))) (i, s, g) =
        concat (map K (greedy_star Dot (Suc i) xs))"
      using False Cons by (simp add: K_def comp_def case_prod_unfold)
    have none: "\<And>n. n < length (takeWhile (in_class Dot) xs) \<Longrightarrow> K (Suc i + n, drop n xs) = []"
    proof -
      fix n assume n: "n < length (takeWhile (in_class Dot) xs)"
      then have lt: "\<not> line_terminator (xs ! n)" by (simp add: dot_run_class dot_run_nth)
      have "n < length xs" using n
        by (metis length_takeWhile_le less_le_trans)
      then have "drop n xs = xs ! n # drop (Suc n) xs" by (simp add: Cons_nth_drop_Suc)
      then show "K (Suc i + n, drop n xs) = []"
        using lt assms by (auto simp: K_def)
    qed
    have "concat (map K (greedy_star Dot (Suc i) xs)) =
        K (Suc i + length (takeWhile (in_class Dot) xs), drop (length (takeWhile (in_class Dot) xs)) xs)"
      using none by (rule greedy_star_last_only)
    moreover have "dot_run s = x # dot_run xs" using False Cons by (simp add: dot_run_Cons)
    moreover have "take (Suc (length (dot_run xs))) (x # xs) = x # dot_run xs"
      by (simp add: dot_run_take)
    ultimately show ?thesis using run Cons
      by (simp add: K_def dot_run_class)
  qed
qed

lemma run_value_end:
  "rx_run (Group k (Plus Dot)) (i, s, g) = [] \<longleftrightarrow> dot_run s = []"
  "dot_run s \<noteq> [] \<Longrightarrow>
     \<exists>ms. rx_run (Group k (Plus Dot)) (i, s, g) =
       (i + length (dot_run s), drop (length (dot_run s)) s, g(k \<mapsto> dot_run s)) # ms"
proof -
  show "rx_run (Group k (Plus Dot)) (i, s, g) = [] \<longleftrightarrow> dot_run s = []"
  proof (cases s)
    case Nil
    then show ?thesis by simp
  next
    case (Cons x xs)
    obtain ms where "greedy_star Dot (Suc i) xs =
        (Suc i + length (takeWhile (in_class Dot) xs), drop (length (takeWhile (in_class Dot) xs)) xs) # ms"
      using greedy_star_hd by blast
    then show ?thesis using Cons by (simp add: dot_run_Cons)
  qed
next
  assume ne: "dot_run s \<noteq> []"
  then obtain x xs where s: "s = x # xs" and x: "\<not> line_terminator x"
    by (cases s) (auto simp: dot_run_Cons split: if_splits)
  obtain ms where ms: "greedy_star Dot (Suc i) xs =
      (Suc i + length (takeWhile (in_class Dot) xs), drop (length (takeWhile (in_class Dot) xs)) xs) # ms"
    using greedy_star_hd by blast
  have "take (Suc (length (dot_run xs))) (x # xs) = x # dot_run xs"
    by (simp add: dot_run_take)
  then show "\<exists>ms. rx_run (Group k (Plus Dot)) (i, s, g) =
       (i + length (dot_run s), drop (length (dot_run s)) s, g(k \<mapsto> dot_run s)) # ms"
    using s x ms by (simp add: dot_run_Cons dot_run_class)
qed

section \<open>What the three patterns find\<close>

lemma labelled_at_append:
  "labelled_at (a @ l) c s =
     (if take (length a) s = a then labelled_at l c (drop (length a) s) else None)"
proof (cases "take (length a) s = a")
  case True
  then have "take (length a + length l) s = a @ l \<longleftrightarrow> take (length l) (drop (length a) s) = l"
    by (simp add: take_add)
  then show ?thesis using True
    by (simp add: labelled_at_def add.assoc[symmetric] add.commute)
next
  case False
  have "take (length a + length l) s \<noteq> a @ l"
  proof
    assume "take (length a + length l) s = a @ l"
    then have "take (length a) (take (length a + length l) s) = take (length a) (a @ l)" by simp
    then show False using False by (simp add: min_def)
  qed
  then show ?thesis using False by (simp add: labelled_at_def)
qed

lemma run_labelled_close:
  assumes "line_terminator y"
  shows "rx_run (Seq (Group 1 (Lit l)) (Seq (Group 2 (Plus Dot)) (Lit (y # c)))) (i, s, g) =
     (case labelled_at l (y # c) s of
        None \<Rightarrow> []
      | Some v \<Rightarrow> [(i + length l + length v + Suc (length c),
                    drop (Suc (length c)) (drop (length v) (drop (length l) s)),
                    g(1 \<mapsto> l, 2 \<mapsto> v))])"
  by (simp only: run_label run_value_close[OF assms])
     (simp add: labelled_at_def add.commute)

lemma run_labelled_end_None:
  "labelled_at l [] s = None \<Longrightarrow>
     rx_run (Seq (Group 1 (Lit l)) (Group 2 (Plus Dot))) (i, s, g) = []"
  using run_value_end(1)[of 2 "i + length l" "drop (length l) s" "g(1 \<mapsto> l)"]
  by (simp only: rx_run.simps(9) run_label) (auto simp: labelled_at_def split: if_splits)

lemma run_labelled_end_Some:
  assumes "labelled_at l [] s = Some v"
  shows "\<exists>m ms. rx_run (Seq (Group 1 (Lit l)) (Group 2 (Plus Dot))) (i, s, g) = m # ms
            \<and> snd (snd m) 2 = Some v"
proof -
  from assms have l: "take (length l) s = l" and v: "dot_run (drop (length l) s) = v" and ne: "v \<noteq> []"
    by (auto simp: labelled_at_def split: if_splits)
  from run_value_end(2)[of "drop (length l) s" 2 "i + length l" "g(1 \<mapsto> l)"] ne v
  obtain ms where ms: "rx_run (Group 2 (Plus Dot)) (i + length l, drop (length l) s, g(1 \<mapsto> l)) =
       (i + length l + length v, drop (length v) (drop (length l) s), g(1 \<mapsto> l, 2 \<mapsto> v)) # ms"
    by auto
  have "rx_run (Seq (Group 1 (Lit l)) (Group 2 (Plus Dot))) (i, s, g) =
      rx_run (Group 2 (Plus Dot)) (i + length l, drop (length l) s, g(1 \<mapsto> l))"
    using l by (simp only: run_label refl if_True)
  then show ?thesis using ms by simp
qed

lemma search_first:
  assumes none: "\<And>i s. labelled_at l c s = None \<Longrightarrow> rx_run T (i, s, Map.empty) = []"
      and some: "\<And>i s v. labelled_at l c s = Some v \<Longrightarrow>
                   \<exists>m ms. rx_run T (i, s, Map.empty) = m # ms \<and> snd (snd m) 2 = Some v"
  shows "map_option (\<lambda>g. g 2) (rx_search T i s) = map_option Some (first_labelled l c s)"
proof (induction s arbitrary: i)
  case Nil
  show ?case
  proof (cases "labelled_at l c []")
    case None
    then show ?thesis using none[of "[]" i] by simp
  next
    case (Some v)
    then show ?thesis using some[of "[]" v i] by auto
  qed
next
  case (Cons x xs)
  show ?case
  proof (cases "labelled_at l c (x # xs)")
    case None
    then show ?thesis using none[of "x # xs" i] Cons.IH[of "Suc i"] by simp
  next
    case (Some v)
    then show ?thesis using some[of "x # xs" v i] by auto
  qed
qed

lemma lf_terminator: "line_terminator (CHR 0x0A)"
  by (simp add: line_terminator_def)

lemma version_match:
  "map_option (\<lambda>g. g 2) (str_match s version_regex) =
     map_option Some (first_labelled ''-\<newline>Gradle '' ''\<newline>-'' s)"
proof -
  let ?T = "Seq (Lit ''-\<newline>'') (Seq (Group 1 (Lit ''Gradle ''))
              (Seq (Group 2 (Plus Dot)) (Lit ''\<newline>-'')))"
  have lbl: "''-\<newline>Gradle '' = ''-\<newline>'' @ ''Gradle ''" by simp
  have split: "\<And>s. labelled_at ''-\<newline>Gradle '' ''\<newline>-'' s =
      (if take (length ''-\<newline>'') s = ''-\<newline>''
       then labelled_at ''Gradle '' ''\<newline>-'' (drop (length ''-\<newline>'') s) else None)"
    by (simp only: lbl labelled_at_append)
  have run: "\<And>i s g. rx_run ?T (i, s, g) =
      (if take (length ''-\<newline>'') s = ''-\<newline>''
       then (case labelled_at ''Gradle '' ''\<newline>-'' (drop (length ''-\<newline>'') s) of
               None \<Rightarrow> []
             | Some v \<Rightarrow> [(i + length ''-\<newline>'' + length ''Gradle '' + length v + Suc (length ''-''),
                           drop (Suc (length ''-'')) (drop (length v)
                             (drop (length ''Gradle '') (drop (length ''-\<newline>'') s))),
                           g(1 \<mapsto> ''Gradle '', 2 \<mapsto> v))])
       else [])"
    by (simp only: run_lit run_labelled_close[OF lf_terminator] fst_conv snd_conv)
  have "map_option (\<lambda>g. g 2) (rx_search ?T 0 s) =
      map_option Some (first_labelled ''-\<newline>Gradle '' ''\<newline>-'' s)"
  proof (rule search_first)
    fix i s assume "labelled_at ''-\<newline>Gradle '' ''\<newline>-'' s = None"
    then show "rx_run ?T (i, s, Map.empty) = []"
      by (simp only: run split) (simp split: if_splits)
  next
    fix i s v assume "labelled_at ''-\<newline>Gradle '' ''\<newline>-'' s = Some v"
    then show "\<exists>m ms. rx_run ?T (i, s, Map.empty) = m # ms \<and> snd (snd m) 2 = Some v"
      by (simp only: run split) (simp split: if_splits)
  qed
  then show ?thesis
    by (simp only: str_match_def version_regex_def rx_search_lazy)
qed

lemma property_match:
  "map_option (\<lambda>g. g 2) (str_match s (property_regex p)) =
     map_option Some (first_labelled (p @ '': '') ''\<newline>'' s)"
proof -
  let ?T = "Seq (Group 1 (Lit (p @ '': ''))) (Seq (Group 2 (Plus Dot)) (Lit ''\<newline>''))"
  have "map_option (\<lambda>g. g 2) (rx_search ?T 0 s) =
      map_option Some (first_labelled (p @ '': '') ''\<newline>'' s)"
  proof (rule search_first)
    fix i s assume "labelled_at (p @ '': '') ''\<newline>'' s = None"
    then show "rx_run ?T (i, s, Map.empty) = []"
      by (simp only: run_labelled_close[OF lf_terminator]) simp
  next
    fix i s v assume "labelled_at (p @ '': '') ''\<newline>'' s = Some v"
    then show "\<exists>m ms. rx_run ?T (i, s, Map.empty) = m # ms \<and> snd (snd m) 2 = Some v"
      by (simp only: run_labelled_close[OF lf_terminator]) simp
  qed
  then show ?thesis
    by (simp only: str_match_def property_regex_def rx_search_lazy)
qed

lemma property_line_match:
  "map_option (\<lambda>g. g 2) (str_match s (property_line_regex p)) =
     map_option Some (first_labelled (p @ '': '') [] s)"
proof -
  let ?T = "Seq (Group 1 (Lit (p @ '': ''))) (Group 2 (Plus Dot))"
  have "map_option (\<lambda>g. g 2) (rx_search ?T 0 s) =
      map_option Some (first_labelled (p @ '': '') [] s)"
    by (rule search_first) (rule run_labelled_end_None, assumption, rule run_labelled_end_Some, assumption)
  then show ?thesis
    by (simp only: str_match_def property_line_regex_def rx_search_lazy)
qed

lemma first_labelled_None:
  "first_labelled l c s = None \<longleftrightarrow> (\<forall>n. labelled_at l c (drop n s) = None)"
proof (induction s)
  case Nil
  show ?case by simp
next
  case (Cons x xs)
  show ?case
  proof (cases "labelled_at l c (x # xs)")
    case None
    have "(\<forall>n. labelled_at l c (drop n (x # xs)) = None) \<longleftrightarrow> (\<forall>n. labelled_at l c (drop n xs) = None)"
    proof
      assume a: "\<forall>n. labelled_at l c (drop n (x # xs)) = None"
      show "\<forall>n. labelled_at l c (drop n xs) = None"
      proof
        fix n from a have "labelled_at l c (drop (Suc n) (x # xs)) = None" by blast
        then show "labelled_at l c (drop n xs) = None" by simp
      qed
    next
      assume a: "\<forall>n. labelled_at l c (drop n xs) = None"
      show "\<forall>n. labelled_at l c (drop n (x # xs)) = None"
      proof
        fix n show "labelled_at l c (drop n (x # xs)) = None"
          using a None by (cases n) simp_all
      qed
    qed
    then show ?thesis using None Cons.IH by simp
  next
    case (Some v)
    have "\<not> (\<forall>n. labelled_at l c (drop n (x # xs)) = None)"
    proof
      assume "\<forall>n. labelled_at l c (drop n (x # xs)) = None"
      then have "labelled_at l c (drop 0 (x # xs)) = None" by (rule spec)
      then show False using Some by simp
    qed
    then show ?thesis using Some by simp
  qed
qed

lemma first_labelled_Some:
  "first_labelled l c s = Some v \<longleftrightarrow>
     (\<exists>n. n \<le> length s \<and> labelled_at l c (drop n s) = Some v \<and>
          (\<forall>k<n. labelled_at l c (drop k s) = None))"
proof (induction s)
  case Nil
  show ?case by auto
next
  case (Cons x xs)
  show ?case
  proof (cases "labelled_at l c (x # xs)")
    case None
    have "(\<exists>n. n \<le> length (x # xs) \<and> labelled_at l c (drop n (x # xs)) = Some v \<and>
            (\<forall>k<n. labelled_at l c (drop k (x # xs)) = None)) \<longleftrightarrow>
          (\<exists>n. n \<le> length xs \<and> labelled_at l c (drop n xs) = Some v \<and>
            (\<forall>k<n. labelled_at l c (drop k xs) = None))" (is "?L \<longleftrightarrow> ?R")
    proof
      assume ?L
      then obtain n where n: "n \<le> length (x # xs)" "labelled_at l c (drop n (x # xs)) = Some v"
          "\<forall>k<n. labelled_at l c (drop k (x # xs)) = None" by blast
      from n(2) None obtain m where m: "n = Suc m" by (cases n) auto
      have "\<forall>k<m. labelled_at l c (drop k xs) = None"
      proof (intro allI impI)
        fix k assume "k < m"
        then have "labelled_at l c (drop (Suc k) (x # xs)) = None" using n(3) m by blast
        then show "labelled_at l c (drop k xs) = None" by simp
      qed
      then show ?R using n m by auto
    next
      assume ?R
      then obtain n where n: "n \<le> length xs" "labelled_at l c (drop n xs) = Some v"
          "\<forall>k<n. labelled_at l c (drop k xs) = None" by blast
      have "\<forall>k<Suc n. labelled_at l c (drop k (x # xs)) = None"
      proof (intro allI impI)
        fix k assume "k < Suc n"
        then show "labelled_at l c (drop k (x # xs)) = None"
          using n(3) None by (cases k) auto
      qed
      then show ?L using n by (intro exI[of _ "Suc n"]) simp
    qed
    then show ?thesis using None Cons.IH by simp
  next
    case (Some w)
    have "(\<exists>n. n \<le> length (x # xs) \<and> labelled_at l c (drop n (x # xs)) = Some v \<and>
            (\<forall>k<n. labelled_at l c (drop k (x # xs)) = None)) \<longleftrightarrow> w = v" (is "?L \<longleftrightarrow> _")
    proof
      assume ?L
      then obtain n where n: "labelled_at l c (drop n (x # xs)) = Some v"
          "\<forall>k<n. labelled_at l c (drop k (x # xs)) = None" by blast
      have "n = 0"
      proof (rule ccontr)
        assume "n \<noteq> 0"
        then have "labelled_at l c (drop 0 (x # xs)) = None" using n(2) by blast
        then show False using Some by simp
      qed
      then show "w = v" using n(1) Some by simp
    next
      assume "w = v"
      then show ?L using Some by (intro exI[of _ 0]) simp
    qed
    then show ?thesis using Some by simp
  qed
qed

lemma labelled_at_SomeD:
  assumes "labelled_at l c s = Some v"
  shows "v \<noteq> []" and "\<forall>x \<in> set v. \<not> line_terminator x" and "\<exists>rest. s = l @ v @ c @ rest"
proof -
  from assms have l: "take (length l) s = l" and v: "dot_run (drop (length l) s) = v"
    and ne: "v \<noteq> []" and c: "take (length c) (drop (length l + length v) s) = c"
    by (auto simp: labelled_at_def split: if_splits)
  show "v \<noteq> []" by (rule ne)
  show "\<forall>x \<in> set v. \<not> line_terminator x"
    using v unfolding dot_run_def by (auto dest: set_takeWhileD)
  have 1: "s = l @ drop (length l) s"
    by (metis append_take_drop_id l)
  have 2: "drop (length l) s = v @ drop (length v) (drop (length l) s)"
    by (metis append_take_drop_id dot_run_take v)
  have "drop (length v) (drop (length l) s) = drop (length l + length v) s"
    by (simp add: add.commute)
  then have 3: "drop (length v) (drop (length l) s) = c @ drop (length c) (drop (length l + length v) s)"
    by (metis append_take_drop_id c)
  have "s = l @ v @ c @ drop (length c) (drop (length l + length v) s)"
    using 1 2 3 by metis
  then show "\<exists>rest. s = l @ v @ c @ rest" by blast
qed

lemma dot_run_stop:
  assumes "\<forall>x \<in> set v. \<not> line_terminator x" and "r = [] \<or> line_terminator (hd r)"
  shows "dot_run (v @ r) = v"
proof (cases r)
  case Nil
  then show ?thesis using assms(1) by (simp add: dot_run_def)
next
  case (Cons y ys)
  then have "line_terminator y" using assms(2) by simp
  then have "takeWhile (\<lambda>c. \<not> line_terminator c) (v @ y # ys) = takeWhile (\<lambda>c. \<not> line_terminator c) v"
    by (simp add: takeWhile_tail)
  then show ?thesis using assms(1) Cons by (simp add: dot_run_def)
qed

lemma labelled_at_endI:
  assumes "v \<noteq> []" and "\<forall>x \<in> set v. \<not> line_terminator x" and "r = [] \<or> line_terminator (hd r)"
  shows "labelled_at l [] (l @ v @ r) = Some v"
  using assms by (simp add: labelled_at_def dot_run_stop)

lemma labelled_atI:
  assumes "line_terminator y" and "v \<noteq> []" and "\<forall>x \<in> set v. \<not> line_terminator x"
  shows "labelled_at l (y # c) (l @ v @ (y # c) @ rest) = Some v"
proof -
  have "dot_run (v @ (y # c) @ rest) = v"
    using assms by (intro dot_run_stop) simp_all
  then show ?thesis using assms(2) by (simp add: labelled_at_def)
qed

lemma occurs_labelled:
  assumes "line_terminator y"
  shows "occurs l (y # c) s pre v \<longleftrightarrow> (\<exists>suf. s = pre @ suf \<and> labelled_at l (y # c) suf = Some v)"
proof
  assume "occurs l (y # c) s pre v"
  then obtain rest where "v \<noteq> []" "\<forall>x \<in> set v. \<not> line_terminator x" "s = pre @ l @ v @ (y # c) @ rest"
    by (auto simp: occurs_def)
  then show "\<exists>suf. s = pre @ suf \<and> labelled_at l (y # c) suf = Some v"
    using labelled_atI[OF assms, of v l c rest] by blast
next
  assume "\<exists>suf. s = pre @ suf \<and> labelled_at l (y # c) suf = Some v"
  then obtain suf where s: "s = pre @ suf" and la: "labelled_at l (y # c) suf = Some v" by blast
  from labelled_at_SomeD[OF la] s show "occurs l (y # c) s pre v"
    by (auto simp: occurs_def)
qed

lemma first_labelled_occurs:
  assumes "line_terminator y"
  shows "first_labelled l (y # c) s = Some v \<longleftrightarrow>
     (\<exists>pre. occurs l (y # c) s pre v \<and>
            (\<forall>pre' v'. occurs l (y # c) s pre' v' \<longrightarrow> length pre \<le> length pre'))"
proof
  assume "first_labelled l (y # c) s = Some v"
  then obtain n where n: "n \<le> length s" "labelled_at l (y # c) (drop n s) = Some v"
      "\<forall>k<n. labelled_at l (y # c) (drop k s) = None"
    unfolding first_labelled_Some by blast
  have "s = take n s @ drop n s" by simp
  then have occ: "occurs l (y # c) s (take n s) v"
    using n(2) unfolding occurs_labelled[OF assms] by blast
  have "\<forall>pre' v'. occurs l (y # c) s pre' v' \<longrightarrow> length (take n s) \<le> length pre'"
  proof (intro allI impI)
    fix pre' v' assume "occurs l (y # c) s pre' v'"
    then obtain suf where "s = pre' @ suf" "labelled_at l (y # c) suf = Some v'"
      unfolding occurs_labelled[OF assms] by blast
    then have "labelled_at l (y # c) (drop (length pre') s) = Some v'" by simp
    then have "\<not> length pre' < n" using n(3) by auto
    then show "length (take n s) \<le> length pre'" using n(1) by simp
  qed
  then show "\<exists>pre. occurs l (y # c) s pre v \<and>
      (\<forall>pre' v'. occurs l (y # c) s pre' v' \<longrightarrow> length pre \<le> length pre')"
    using occ by blast
next
  assume "\<exists>pre. occurs l (y # c) s pre v \<and>
      (\<forall>pre' v'. occurs l (y # c) s pre' v' \<longrightarrow> length pre \<le> length pre')"
  then obtain pre where occ: "occurs l (y # c) s pre v"
    and least: "\<And>pre' v'. occurs l (y # c) s pre' v' \<Longrightarrow> length pre \<le> length pre'" by blast
  from occ obtain suf where s: "s = pre @ suf" and la: "labelled_at l (y # c) suf = Some v"
    unfolding occurs_labelled[OF assms] by blast
  have "\<forall>k<length pre. labelled_at l (y # c) (drop k s) = None"
  proof (intro allI impI)
    fix k assume k: "k < length pre"
    show "labelled_at l (y # c) (drop k s) = None"
    proof (cases "labelled_at l (y # c) (drop k s)")
      case None
      then show ?thesis .
    next
      case (Some v')
      have "s = take k s @ drop k s" by simp
      then have "occurs l (y # c) s (take k s) v'"
        using Some unfolding occurs_labelled[OF assms] by blast
      then have "length pre \<le> length (take k s)" by (rule least)
      then show ?thesis using k by simp
    qed
  qed
  moreover have "length pre \<le> length s" using s by simp
  moreover have "labelled_at l (y # c) (drop (length pre) s) = Some v" using s la by simp
  ultimately show "first_labelled l (y # c) s = Some v"
    unfolding first_labelled_Some by blast
qed

lemma first_labelled_no_occurs:
  assumes "line_terminator y"
  shows "first_labelled l (y # c) s = None \<longleftrightarrow> (\<forall>pre v. \<not> occurs l (y # c) s pre v)"
proof
  assume none: "first_labelled l (y # c) s = None"
  show "\<forall>pre v. \<not> occurs l (y # c) s pre v"
  proof (intro allI notI)
    fix pre v assume "occurs l (y # c) s pre v"
    then obtain suf where "s = pre @ suf" "labelled_at l (y # c) suf = Some v"
      unfolding occurs_labelled[OF assms] by blast
    then have "labelled_at l (y # c) (drop (length pre) s) = Some v" by simp
    then show False using none unfolding first_labelled_None by simp
  qed
next
  assume no: "\<forall>pre v. \<not> occurs l (y # c) s pre v"
  show "first_labelled l (y # c) s = None"
    unfolding first_labelled_None
  proof
    fix n
    show "labelled_at l (y # c) (drop n s) = None"
    proof (cases "labelled_at l (y # c) (drop n s)")
      case None
      then show ?thesis .
    next
      case (Some v)
      have "s = take n s @ drop n s" by simp
      then have "occurs l (y # c) s (take n s) v"
        using Some unfolding occurs_labelled[OF assms] by blast
      then show ?thesis using no by blast
    qed
  qed
qed

lemma split_nl_ne: "split_nl s \<noteq> []"
  by (induction s) (auto split: list.splits)

lemma split_nl_line:
  "CHR 0x0A \<notin> set l \<Longrightarrow> split_nl (l @ CHR 0x0A # r) = l # split_nl r"
  by (induction l) auto


lemma split_nl_hd:
  "\<exists>ls. split_nl s = takeWhile (\<lambda>c. c \<noteq> CHR 0x0A) s # ls"
  by (induction s) auto

lemma split_nl_lines:
  "\<forall>l \<in> set ls. CHR 0x0A \<notin> set l \<Longrightarrow>
     split_nl (concat (map (\<lambda>l. l @ [CHR 0x0A]) ls) @ r) = ls @ split_nl r"
  by (induction ls) (simp_all add: split_nl_line)

lemma split_nl_mem:
  "CHR 0x0A \<notin> set x \<Longrightarrow> \<exists>a. a @ x \<in> set (split_nl (pre @ x @ CHR 0x0A # rest))"
proof (induction pre)
  case Nil
  then have "split_nl (x @ CHR 0x0A # rest) = x # split_nl rest" by (rule split_nl_line)
  then have "[] @ x \<in> set (split_nl ([] @ x @ CHR 0x0A # rest))" by simp
  then show ?case by blast
next
  case (Cons c pre)
  then obtain a where a: "a @ x \<in> set (split_nl (pre @ x @ CHR 0x0A # rest))" by blast
  show ?case
  proof (cases "c = CHR 0x0A")
    case True
    then have "a @ x \<in> set (split_nl ((c # pre) @ x @ CHR 0x0A # rest))" using a by simp
    then show ?thesis by blast
  next
    case False
    obtain l ls where l: "split_nl (pre @ x @ CHR 0x0A # rest) = l # ls"
      using split_nl_ne by (cases "split_nl (pre @ x @ CHR 0x0A # rest)") auto
    then have sp: "split_nl ((c # pre) @ x @ CHR 0x0A # rest) = (c # l) # ls"
      using False by simp
    show ?thesis
    proof (cases "a @ x = l")
      case True
      then have "(c # a) @ x \<in> set (split_nl ((c # pre) @ x @ CHR 0x0A # rest))"
        using sp by simp
      then show ?thesis by blast
    next
      case False
      then have "a @ x \<in> set ls" using a l by simp
      then have "a @ x \<in> set (split_nl ((c # pre) @ x @ CHR 0x0A # rest))" using sp by simp
      then show ?thesis by blast
    qed
  qed
qed

section \<open>What each operation runs\<close>

lemma invocations_append: "invocations (a @ b) = invocations a @ invocations b"
  by (induction a rule: invocations.induct) simp_all

lemma getExecOutput_eq:
  "getExecOutput e (retrieveGradleCLI u) as p = (answer e u as p, [Exec (issued e u as p)])"
  by (simp add: getExecOutput_def answer_def issued_def)

lemma fetchGradleVersion_failed:
  assumes "exitCode (answer e u [''--version''] p) \<noteq> 0"
  shows "\<exists>msg t. fetchGradleVersion e u p =
           (Inl (ExecutionError msg), Exec (issued e u [''--version''] p) # t) \<and> invocations t = []"
  using assms by (simp add: fetchGradleVersion_def getExecOutput_eq Let_def)

lemma fetchGradleVersion_ran:
  assumes "exitCode (answer e u [''--version''] p) = 0"
  shows "fetchGradleVersion e u p =
     (case str_match (stdout (answer e u [''--version''] p)) version_regex of
        Some version \<Rightarrow> (Inr (version 2), [Exec (issued e u [''--version''] p)])
      | None \<Rightarrow> (Inl (ParseError ''Failed to extract gradle version''),
                 Exec (issued e u [''--version''] p) #
                   (if isDebug e
                    then [Debug (''Failed to extract gradle version from: ''
                                  @ stdout (answer e u [''--version''] p))]
                    else [])))"
  using assms by (simp add: fetchGradleVersion_def getExecOutput_eq Let_def split: option.splits)

lemma fetchGradleVersion_invocations:
  "invocations (snd (fetchGradleVersion e u p)) = [issued e u [''--version''] p]"
proof (cases "exitCode (answer e u [''--version''] p) = 0")
  case True
  then show ?thesis by (simp add: fetchGradleVersion_ran split: option.splits)
next
  case False
  then show ?thesis using fetchGradleVersion_failed[of e u p] by auto
qed

lemma versionGate_invocations: "invocations (snd (versionGate v)) = []"
  by (simp add: versionGate_def split: option.splits)

lemma singlePropertySupport_invocations:
  "invocations (snd (singlePropertySupport e u p)) = [issued e u [''--version''] p]"
proof (cases "fetchGradleVersion e u p")
  case (Pair r t)
  then have t: "invocations t = [issued e u [''--version''] p]"
    using fetchGradleVersion_invocations[of e u p] by simp
  show ?thesis
  proof (cases r)
    case (Inl err)
    then show ?thesis using Pair t by (simp add: singlePropertySupport_def)
  next
    case (Inr version)
    obtain r' t' where g: "versionGate version = (r', t')" by (cases "versionGate version")
    then have "invocations t' = []" using versionGate_invocations[of version] by simp
    then show ?thesis using Pair Inr t g
      by (simp add: singlePropertySupport_def invocations_append)
  qed
qed

lemma singlePropertySupport_failed:
  assumes "exitCode (answer e u [''--version''] p) \<noteq> 0"
  shows "\<exists>msg. fst (singlePropertySupport e u p) = Inl (ExecutionError msg)"
  using fetchGradleVersion_failed[OF assms] by (auto simp: singlePropertySupport_def)

lemma retrieveGradleProperty_probe_failed:
  assumes "fst (singlePropertySupport e u p) = Inl err"
  shows "retrieveGradleProperty e u p m property = (Inl err, snd (singlePropertySupport e u p))"
  using assms by (cases "singlePropertySupport e u p") (simp add: retrieveGradleProperty_def)

lemma retrieveGradleProperty_probed:
  assumes "fst (singlePropertySupport e u p) = Inr b"
  shows "retrieveGradleProperty e u p m property =
     (let t = snd (singlePropertySupport e u p) @ [Exec (issued e u (propertiesArgs m b property) p)];
          out = answer e u (propertiesArgs m b property) p
      in if exitCode out \<noteq> 0 then
           (Inl (ExecutionError (''Failed to execute '' @ [CHR 0x27] @ retrieveGradleCLI u @ '' ''
                   @ verifyModule m @ '':properties'' @ [CHR 0x27])),
            t @ [ErrorLog (stderr out),
                 SetFailed ([CHR 0x27] @ retrieveGradleCLI u @ '' '' @ verifyModule m @ '':properties''
                   @ [CHR 0x27] @ '' retrieval failed!'')])
         else (case matchProperty b property (stdout out) of
                 Some matched \<Rightarrow> (Inr (matched 2), t)
               | None \<Rightarrow> (Inr None,
                    t @ [Warning (''Failed to retrieve the '' @ [CHR 0x27] @ property
                        @ [CHR 0x27] @ '' for '' @ [CHR 0x27] @ m @ [CHR 0x27])])))"
  using assms
  by (cases "singlePropertySupport e u p")
     (simp add: retrieveGradleProperty_def getExecOutput_eq propertiesArgs_def Let_def
        split: option.splits)

lemma retrieveGradleProperty_invocations:
  "invocations (snd (retrieveGradleProperty e u p m property)) =
     issued e u [''--version''] p #
       (case fst (singlePropertySupport e u p) of
          Inl err \<Rightarrow> []
        | Inr b \<Rightarrow> [issued e u (propertiesArgs m b property) p])"
proof (cases "fst (singlePropertySupport e u p)")
  case (Inl err)
  then show ?thesis
    by (simp add: retrieveGradleProperty_probe_failed singlePropertySupport_invocations)
next
  case (Inr b)
  then show ?thesis
    by (simp add: retrieveGradleProperty_probed Let_def invocations_append
          singlePropertySupport_invocations split: option.splits)
qed

lemma retrieveGradleDependencies_eq:
  "retrieveGradleDependencies e u p m cfg =
     (let out = answer e u (dependenciesArgs m cfg) p;
          t = [Exec (issued e u (dependenciesArgs m cfg) p)]
      in if exitCode out \<noteq> 0 then
           (Inl (ExecutionError
              (''Failed to execute '' @ [CHR 0x27] @ retrieveGradleCLI u @ '' '' @ verifyModule m
                 @ '':dependencies''
                 @ (case cfg of None \<Rightarrow> [] | Some c \<Rightarrow> if c = [] then [] else '' --configuration '' @ c)
                 @ [CHR 0x27])),
            t @ [ErrorLog (stderr out),
                 SetFailed ([CHR 0x27] @ retrieveGradleCLI u @ '' '' @ verifyModule m
                   @ '':dependencies''
                   @ (case cfg of None \<Rightarrow> [] | Some c \<Rightarrow>
                        if c = [] then [] else '' --configuration '' @ c @ [CHR 0x27])
                   @ '' resolution failed!'')])
         else (Inr (stdout out), t))"
  by (simp add: retrieveGradleDependencies_def getExecOutput_eq dependenciesArgs_def Let_def
        split: option.splits list.splits)

lemma retrieveGradleBuildEnvironment_eq:
  "retrieveGradleBuildEnvironment e u p =
     (let out = answer e u [''--console'', ''plain'', '':buildEnvironment''] p;
          t = [Exec (issued e u [''--console'', ''plain'', '':buildEnvironment''] p)]
      in if exitCode out \<noteq> 0 then
           (Inl (ExecutionError
              (''Failed to execute '' @ [CHR 0x27] @ retrieveGradleCLI u @ '' :buildEnvironment''
                 @ [CHR 0x27])),
            t @ [ErrorLog (stderr out),
                 SetFailed ([CHR 0x27] @ retrieveGradleCLI u @ '' :buildEnvironment'' @ [CHR 0x27]
                   @ '' resolution failed!'')])
         else (Inr (stdout out), t))"
  by (simp add: retrieveGradleBuildEnvironment_def getExecOutput_eq Let_def)

lemmas run_defs =
  fetchGradleVersion_def getExecOutput_def retrieveGradleCLI_def str_match_def version_regex_def
  versionGate_def coerce_def coerce_regex_def parse_def numeric_identifier_def digits_value_def
  digit_value_def MAX_SAFE_INTEGER_def is_digit_def or_zero_def line_terminator_def
  satisfies_gte_def compareMain_def compareIdentifiers_def threshold_def
  singlePropertySupport_def retrieveGradleProperty_def matchProperty_def property_regex_def
  property_line_regex_def verifyModule_def template_def gradle_env_def prints_def const_env_def
  issued_def answer_def Let_def

lemma retrieveGradleDependencies_invocations:
  "invocations (snd (retrieveGradleDependencies e u p m cfg)) =
     [issued e u (dependenciesArgs m cfg) p]"
  by (simp add: retrieveGradleDependencies_eq Let_def)

lemma retrieveGradleBuildEnvironment_invocations:
  "invocations (snd (retrieveGradleBuildEnvironment e u p)) =
     [issued e u [''--console'', ''plain'', '':buildEnvironment''] p]"
  by (simp add: retrieveGradleBuildEnvironment_eq Let_def)

text \<open>
  C7: the root module \<open>:\<close> becomes the empty string and every other module is kept, so
  that the command path of the root module is \<open>:properties\<close> and that of \<open>app\<close> is
  \<open>app:properties\<close>; the property query, in both modes, and the dependency listing are
  run on the normalized module.
\<close>

theorem module_normalized_in_command_path:
  "verifyModule '':'' = [] \<and> (m \<noteq> '':'' \<longrightarrow> verifyModule m = m)
   \<and> verifyModule '':'' @ '':properties'' = '':properties''
   \<and> verifyModule ''app'' @ '':properties'' = ''app:properties''
   \<and> (fst (singlePropertySupport e u p) = Inr True \<longrightarrow>
        invocations (snd (retrieveGradleProperty e u p m property)) =
          [issued e u [''--version''] p,
           issued e u [verifyModule m @ '':properties'', ''-q'', ''--property'', property] p])
   \<and> (fst (singlePropertySupport e u p) = Inr False \<longrightarrow>
        invocations (snd (retrieveGradleProperty e u p m property)) =
          [issued e u [''--version''] p,
           issued e u [verifyModule m @ '':properties'', ''-q''] p])
   \<and> (\<exists>rest. invocations (snd (retrieveGradleDependencies e u p m cfg)) =
          [issued e u ([''--console'', ''plain'', verifyModule m @ '':dependencies''] @ rest) p])"
proof -
  have "\<exists>rest. invocations (snd (retrieveGradleDependencies e u p m cfg)) =
          [issued e u ([''--console'', ''plain'', verifyModule m @ '':dependencies''] @ rest) p]"
    unfolding retrieveGradleDependencies_invocations dependenciesArgs_def by blast
  then show ?thesis
    by (simp add: retrieveGradleProperty_invocations propertiesArgs_def verifyModule_def)
qed

theorem module_normalized_in_command_path_witness:
  "''app'' \<noteq> '':'' \<and> verifyModule ''app'' = ''app''
   \<and> fst (singlePropertySupport (gradle_env ''7.6'' (prints [])) False ''.'') = Inr True
   \<and> invocations (snd (retrieveGradleProperty (gradle_env ''7.6'' (prints [])) False ''.'' '':'' ''name'')) =
        [issued (gradle_env ''7.6'' (prints [])) False [''--version''] ''.'',
         issued (gradle_env ''7.6'' (prints [])) False ['':properties'', ''-q'', ''--property'', ''name''] ''.'']
   \<and> fst (singlePropertySupport (gradle_env ''7.4.2'' (prints [])) False ''.'') = Inr False
   \<and> invocations (snd (retrieveGradleProperty (gradle_env ''7.4.2'' (prints [])) False ''.'' ''app'' ''name'')) =
        [issued (gradle_env ''7.4.2'' (prints [])) False [''--version''] ''.'',
         issued (gradle_env ''7.4.2'' (prints [])) False [''app:properties'', ''-q''] ''.'']"
proof -
  have a: "fst (singlePropertySupport (gradle_env ''7.6'' (prints [])) False ''.'') = Inr True"
    by (simp add: run_defs)
  have b: "fst (singlePropertySupport (gradle_env ''7.4.2'' (prints [])) False ''.'') = Inr False"
    by (simp add: run_defs)
  show ?thesis
    using a b
      module_normalized_in_command_path[of "'':''" "gradle_env ''7.6'' (prints [])" False "''.''" "''name''" None]
      module_normalized_in_command_path[of "''app''" "gradle_env ''7.4.2'' (prints [])" False "''.''" "''name''" None]
    by simp
qed

text \<open>
  C9: a non-empty configuration name is appended to the command line of the dependency
  listing with its flag; an empty configuration name gives the same call, with the same
  command line, as no configuration at all.
\<close>

theorem configuration_changes_command_line:
  "(c \<noteq> [] \<longrightarrow>
      invocations (snd (retrieveGradleDependencies e u p m (Some c))) =
        [issued e u ([''--console'', ''plain'', verifyModule m @ '':dependencies'']
                      @ [''--configuration'', c]) p])
   \<and> invocations (snd (retrieveGradleDependencies e u p m None)) =
        [issued e u [''--console'', ''plain'', verifyModule m @ '':dependencies''] p]
   \<and> retrieveGradleDependencies e u p m (Some []) = retrieveGradleDependencies e u p m None"
proof -
  have "retrieveGradleDependencies e u p m (Some []) = retrieveGradleDependencies e u p m None"
    by (simp add: retrieveGradleDependencies_def)
  then show ?thesis
    by (simp add: retrieveGradleDependencies_invocations dependenciesArgs_def)
qed

theorem configuration_changes_command_line_witness:
  "''runtimeClasspath'' \<noteq> [] \<and>
   invocations (snd (retrieveGradleDependencies (const_env (prints ''deps'')) True ''.'' ''app''
                      (Some ''runtimeClasspath''))) =
     [issued (const_env (prints ''deps'')) True
        [''--console'', ''plain'', ''app:dependencies'', ''--configuration'', ''runtimeClasspath''] ''.'']"
  using configuration_changes_command_line[of "''runtimeClasspath''" "const_env (prints ''deps'')" True "''.''" "''app''"]
  by (simp add: verifyModule_def)

text \<open>
  C8, as the claim states it, fails: a property query whose version probe succeeds runs
  two processes, the version probe and the property command.
\<close>

theorem property_query_runs_two_processes:
  "length (invocations (snd (retrieveGradleProperty
      (gradle_env ''7.6'' (prints ''name: root\<newline>'')) False ''.'' '':'' ''name''))) = 2"
  by (simp add: run_defs)

text \<open>
  C8, amended: the capability probe, the dependency listing and the build-environment
  dump run exactly one process per call; a property query runs the version probe first
  and, when the probe yields a capability flag, the property command once after it, and
  nothing else when the probe fails. No command is run a second time.
\<close>

theorem processes_per_operation:
  "length (invocations (snd (singlePropertySupport e u p))) = 1
   \<and> length (invocations (snd (retrieveGradleDependencies e u p m cfg))) = 1
   \<and> length (invocations (snd (retrieveGradleBuildEnvironment e u p))) = 1
   \<and> invocations (snd (retrieveGradleProperty e u p m property)) =
        issued e u [''--version''] p #
          (case fst (singlePropertySupport e u p) of
             Inl err \<Rightarrow> []
           | Inr b \<Rightarrow>
               [issued e u ([verifyModule m @ '':properties'', ''-q'']
                             @ (if b then [''--property'', property] else [])) p])"
  by (simp add: singlePropertySupport_invocations retrieveGradleDependencies_invocations
        retrieveGradleBuildEnvironment_invocations retrieveGradleProperty_invocations
        propertiesArgs_def split: sum.splits)

theorem processes_per_operation_witness:
  "length (invocations (snd (singlePropertySupport (const_env (prints [])) False ''.''))) = 1
   \<and> invocations (snd (retrieveGradleProperty (const_env (prints [])) False ''.'' ''app'' ''name'')) =
        [issued (const_env (prints [])) False [''--version''] ''.'']
   \<and> invocations (snd (retrieveGradleProperty (gradle_env ''7.4.2'' (prints [])) False ''.'' ''app'' ''name'')) =
        [issued (gradle_env ''7.4.2'' (prints [])) False [''--version''] ''.'',
         issued (gradle_env ''7.4.2'' (prints [])) False [''app:properties'', ''-q''] ''.'']"
proof -
  have a: "fst (singlePropertySupport (const_env (prints [])) False ''.'') =
      Inl (ParseError ''Failed to extract gradle version'')"
    by (simp add: run_defs)
  have b: "fst (singlePropertySupport (gradle_env ''7.4.2'' (prints [])) False ''.'') = Inr False"
    by (simp add: run_defs)
  show ?thesis
    using a b
      processes_per_operation[of "const_env (prints [])" False "''.''" "''app''" None "''name''"]
      processes_per_operation[of "gradle_env ''7.4.2'' (prints [])" False "''.''" "''app''" None "''name''"]
    by (simp add: verifyModule_def)
qed

text \<open>
  C5: whenever a process run by one of the four operations exits with a status other
  than 0, the operation fails with an \<open>ExecutionError\<close> and returns no result, and the
  failed command is the last process it runs: nothing is run again and nothing is run
  after it. This holds for the version probe of the capability probe and of a property
  query, for the property command, for the dependency listing and for the
  build-environment dump.
\<close>

theorem nonzero_exit_is_execution_error:
  "(exitCode (answer e u [''--version''] p) \<noteq> 0 \<longrightarrow>
      (\<exists>msg. fst (singlePropertySupport e u p) = Inl (ExecutionError msg))
      \<and> invocations (snd (singlePropertySupport e u p)) = [issued e u [''--version''] p]
      \<and> (\<exists>msg. fst (retrieveGradleProperty e u p m property) = Inl (ExecutionError msg))
      \<and> invocations (snd (retrieveGradleProperty e u p m property)) = [issued e u [''--version''] p])
   \<and> (\<forall>b. fst (singlePropertySupport e u p) = Inr b
          \<and> exitCode (answer e u ([verifyModule m @ '':properties'', ''-q'']
                                   @ (if b then [''--property'', property] else [])) p) \<noteq> 0 \<longrightarrow>
      (\<exists>msg. fst (retrieveGradleProperty e u p m property) = Inl (ExecutionError msg))
      \<and> invocations (snd (retrieveGradleProperty e u p m property)) =
          [issued e u [''--version''] p,
           issued e u ([verifyModule m @ '':properties'', ''-q'']
                        @ (if b then [''--property'', property] else [])) p])
   \<and> (exitCode (answer e u ([''--console'', ''plain'', verifyModule m @ '':dependencies'']
         @ (case cfg of None \<Rightarrow> [] | Some c \<Rightarrow> if c = [] then [] else [''--configuration'', c])) p) \<noteq> 0 \<longrightarrow>
      (\<exists>msg. fst (retrieveGradleDependencies e u p m cfg) = Inl (ExecutionError msg))
      \<and> invocations (snd (retrieveGradleDependencies e u p m cfg)) =
          [issued e u ([''--console'', ''plain'', verifyModule m @ '':dependencies'']
             @ (case cfg of None \<Rightarrow> [] | Some c \<Rightarrow> if c = [] then [] else [''--configuration'', c])) p])
   \<and> (exitCode (answer e u [''--console'', ''plain'', '':buildEnvironment''] p) \<noteq> 0 \<longrightarrow>
      (\<exists>msg. fst (retrieveGradleBuildEnvironment e u p) = Inl (ExecutionError msg))
      \<and> invocations (snd (retrieveGradleBuildEnvironment e u p)) =
          [issued e u [''--console'', ''plain'', '':buildEnvironment''] p])"
proof (intro conjI impI allI)
  assume a: "exitCode (answer e u [''--version''] p) \<noteq> 0"
  from singlePropertySupport_failed[OF a]
  obtain msg where msg: "fst (singlePropertySupport e u p) = Inl (ExecutionError msg)" by blast
  then show "\<exists>msg. fst (singlePropertySupport e u p) = Inl (ExecutionError msg)" by blast
  show "invocations (snd (singlePropertySupport e u p)) = [issued e u [''--version''] p]"
    by (rule singlePropertySupport_invocations)
  show "\<exists>msg. fst (retrieveGradleProperty e u p m property) = Inl (ExecutionError msg)"
    using msg by (simp add: retrieveGradleProperty_probe_failed)
  show "invocations (snd (retrieveGradleProperty e u p m property)) = [issued e u [''--version''] p]"
    using msg by (simp add: retrieveGradleProperty_invocations)
next
  fix b
  assume a: "fst (singlePropertySupport e u p) = Inr b
    \<and> exitCode (answer e u ([verifyModule m @ '':properties'', ''-q'']
                             @ (if b then [''--property'', property] else [])) p) \<noteq> 0"
  then have x: "exitCode (answer e u (propertiesArgs m b property) p) \<noteq> 0"
    by (simp add: propertiesArgs_def)
  show "\<exists>msg. fst (retrieveGradleProperty e u p m property) = Inl (ExecutionError msg)"
    using a x by (simp add: retrieveGradleProperty_probed Let_def)
  show "invocations (snd (retrieveGradleProperty e u p m property)) =
          [issued e u [''--version''] p,
           issued e u ([verifyModule m @ '':properties'', ''-q'']
                        @ (if b then [''--property'', property] else [])) p]"
    using a by (simp add: retrieveGradleProperty_invocations propertiesArgs_def)
next
  assume "exitCode (answer e u ([''--console'', ''plain'', verifyModule m @ '':dependencies'']
         @ (case cfg of None \<Rightarrow> [] | Some c \<Rightarrow> if c = [] then [] else [''--configuration'', c])) p) \<noteq> 0"
  then have "exitCode (answer e u (dependenciesArgs m cfg) p) \<noteq> 0"
    by (simp add: dependenciesArgs_def)
  then show "\<exists>msg. fst (retrieveGradleDependencies e u p m cfg) = Inl (ExecutionError msg)"
    by (simp add: retrieveGradleDependencies_eq Let_def)
  show "invocations (snd (retrieveGradleDependencies e u p m cfg)) =
          [issued e u ([''--console'', ''plain'', verifyModule m @ '':dependencies'']
             @ (case cfg of None \<Rightarrow> [] | Some c \<Rightarrow> if c = [] then [] else [''--configuration'', c])) p]"
    by (simp add: retrieveGradleDependencies_invocations dependenciesArgs_def)
next
  assume "exitCode (answer e u [''--console'', ''plain'', '':buildEnvironment''] p) \<noteq> 0"
  then show "\<exists>msg. fst (retrieveGradleBuildEnvironment e u p) = Inl (ExecutionError msg)"
    by (simp add: retrieveGradleBuildEnvironment_eq Let_def)
  show "invocations (snd (retrieveGradleBuildEnvironment e u p)) =
          [issued e u [''--console'', ''plain'', '':buildEnvironment''] p]"
    by (rule retrieveGradleBuildEnvironment_invocations)
qed

theorem nonzero_exit_is_execution_error_witness:
  "exitCode (answer (const_env \<lparr>exitCode = 1, stdout = [], stderr = ''boom''\<rparr>) True [''--version''] ''.'') \<noteq> 0
   \<and> (\<exists>msg. fst (singlePropertySupport (const_env \<lparr>exitCode = 1, stdout = [], stderr = ''boom''\<rparr>) True ''.'')
          = Inl (ExecutionError msg))
   \<and> (\<exists>msg. fst (retrieveGradleProperty (const_env \<lparr>exitCode = 1, stdout = [], stderr = ''boom''\<rparr>) True ''.''
                   ''app'' ''name'') = Inl (ExecutionError msg))
   \<and> (\<exists>msg. fst (retrieveGradleDependencies (const_env \<lparr>exitCode = 1, stdout = [], stderr = ''boom''\<rparr>)
                   True ''.'' ''app'' None) = Inl (ExecutionError msg))
   \<and> (\<exists>msg. fst (retrieveGradleBuildEnvironment (const_env \<lparr>exitCode = 1, stdout = [], stderr = ''boom''\<rparr>)
                   True ''.'') = Inl (ExecutionError msg))
   \<and> fst (singlePropertySupport (gradle_env ''7.6'' \<lparr>exitCode = 2, stdout = [], stderr = ''boom''\<rparr>) True ''.'')
        = Inr True
   \<and> (\<exists>msg. fst (retrieveGradleProperty (gradle_env ''7.6'' \<lparr>exitCode = 2, stdout = [], stderr = ''boom''\<rparr>)
                   True ''.'' ''app'' ''name'') = Inl (ExecutionError msg))
   \<and> invocations (snd (retrieveGradleDependencies (const_env \<lparr>exitCode = 1, stdout = [], stderr = ''boom''\<rparr>)
                   True ''.'' ''app'' None)) =
      [issued (const_env \<lparr>exitCode = 1, stdout = [], stderr = ''boom''\<rparr>) True
         [''--console'', ''plain'', ''app:dependencies''] ''.'']
   \<and> invocations (snd (retrieveGradleBuildEnvironment (const_env \<lparr>exitCode = 1, stdout = [], stderr = ''boom''\<rparr>)
                   True ''.'')) =
      [issued (const_env \<lparr>exitCode = 1, stdout = [], stderr = ''boom''\<rparr>) True
         [''--console'', ''plain'', '':buildEnvironment''] ''.'']"
proof -
  have a: "fst (singlePropertySupport (gradle_env ''7.6'' \<lparr>exitCode = 2, stdout = [], stderr = ''boom''\<rparr>) True ''.'')
        = Inr True"
    by (simp add: run_defs)
  have b: "exitCode (answer (gradle_env ''7.6'' \<lparr>exitCode = 2, stdout = [], stderr = ''boom''\<rparr>) True
              [''app:properties'', ''-q'', ''--property'', ''name''] ''.'') \<noteq> 0"
    by (simp add: answer_def gradle_env_def)
  have c: "\<And>as. exitCode (answer (const_env \<lparr>exitCode = 1, stdout = [], stderr = ''boom''\<rparr>) True as ''.'') \<noteq> 0"
    by (simp add: answer_def const_env_def)
  note t1 = nonzero_exit_is_execution_error[of "const_env \<lparr>exitCode = 1, stdout = [], stderr = ''boom''\<rparr>"
        True "''.''" "''app''" "''name''" None]
  note t2 = nonzero_exit_is_execution_error[of "gradle_env ''7.6'' \<lparr>exitCode = 2, stdout = [], stderr = ''boom''\<rparr>"
        True "''.''" "''app''" "''name''" None]
  have 1: "(\<exists>msg. fst (singlePropertySupport (const_env \<lparr>exitCode = 1, stdout = [], stderr = ''boom''\<rparr>) True ''.'')
          = Inl (ExecutionError msg))
   \<and> (\<exists>msg. fst (retrieveGradleProperty (const_env \<lparr>exitCode = 1, stdout = [], stderr = ''boom''\<rparr>) True ''.''
                   ''app'' ''name'') = Inl (ExecutionError msg))"
    using t1[THEN conjunct1] c by blast
  have 2: "\<exists>msg. fst (retrieveGradleDependencies (const_env \<lparr>exitCode = 1, stdout = [], stderr = ''boom''\<rparr>)
                   True ''.'' ''app'' None) = Inl (ExecutionError msg)"
    using t1[THEN conjunct2, THEN conjunct2, THEN conjunct1] c by blast
  have 3: "\<exists>msg. fst (retrieveGradleBuildEnvironment (const_env \<lparr>exitCode = 1, stdout = [], stderr = ''boom''\<rparr>)
                   True ''.'') = Inl (ExecutionError msg)"
    using t1[THEN conjunct2, THEN conjunct2, THEN conjunct2] c by blast
  have 4: "\<exists>msg. fst (retrieveGradleProperty (gradle_env ''7.6'' \<lparr>exitCode = 2, stdout = [], stderr = ''boom''\<rparr>)
                   True ''.'' ''app'' ''name'') = Inl (ExecutionError msg)"
    using t2[THEN conjunct2, THEN conjunct1, THEN spec, of True] a b
    by (simp add: verifyModule_def)
  have 5: "invocations (snd (retrieveGradleDependencies (const_env \<lparr>exitCode = 1, stdout = [], stderr = ''boom''\<rparr>)
                   True ''.'' ''app'' None)) =
      [issued (const_env \<lparr>exitCode = 1, stdout = [], stderr = ''boom''\<rparr>) True
         [''--console'', ''plain'', ''app:dependencies''] ''.'']"
    using t1[THEN conjunct2, THEN conjunct2, THEN conjunct1] c by (simp add: verifyModule_def)
  have 6: "invocations (snd (retrieveGradleBuildEnvironment (const_env \<lparr>exitCode = 1, stdout = [], stderr = ''boom''\<rparr>)
                   True ''.'')) =
      [issued (const_env \<lparr>exitCode = 1, stdout = [], stderr = ''boom''\<rparr>) True
         [''--console'', ''plain'', '':buildEnvironment''] ''.'']"
    using t1[THEN conjunct2, THEN conjunct2, THEN conjunct2] c by simp
  show ?thesis using a c 1 2 3 4 5 6 by blast
qed

text \<open>
  C10: the label is searched as a piece of text, not from the start of a line. The output
  \<open>hostname: h\<close> has no line for the property \<open>name\<close>, only a line for \<open>hostname\<close>; the
  query for \<open>name\<close> answers \<open>h\<close> all the same, with a Gradle that supports single
  properties (7.6) and with one that does not (7.4.2).
\<close>

theorem label_matches_inside_other_name:
  "split_nl ''hostname: h\<newline>'' = [''hostname: h'', []]
   \<and> fst (singlePropertySupport (gradle_env ''7.6'' (prints ''hostname: h\<newline>'')) False ''.'') = Inr True
   \<and> fst (retrieveGradleProperty (gradle_env ''7.6'' (prints ''hostname: h\<newline>'')) False ''.'' '':'' ''name'')
        = Inr (Some ''h'')
   \<and> fst (singlePropertySupport (gradle_env ''7.4.2'' (prints ''hostname: h\<newline>'')) False ''.'') = Inr False
   \<and> fst (retrieveGradleProperty (gradle_env ''7.4.2'' (prints ''hostname: h\<newline>'')) False ''.'' '':'' ''name'')
        = Inr (Some ''h'')"
  by (simp add: run_defs)

theorem label_matches_inside_other_name_witness:
  "fst (retrieveGradleProperty (gradle_env ''7.6'' (prints ''hostname: h\<newline>'')) False ''.'' '':'' ''name'')
     = Inr (Some ''h'')
   \<and> fst (retrieveGradleProperty (gradle_env ''7.4.2'' (prints ''hostname: h\<newline>'')) False ''.'' '':'' ''name'')
     = Inr (Some ''h'')"
  using label_matches_inside_other_name by blast

lemma compareMain_threshold:
  "satisfies_gte v threshold \<longleftrightarrow>
     7 < major v \<or> (major v = 7 \<and> (5 < minor v \<or> (minor v = 5 \<and> 0 \<le> patch v)))"
  by (auto simp: satisfies_gte_def compareMain_def compareIdentifiers_def threshold_def)

text \<open>
  C1: the capability gate fails with a \<open>ParseError\<close> exactly when the version string
  cannot be coerced to a semantic version, and for a coercible string it answers whether
  the coerced version is at least 7.5.0 in the order of major, then minor, then patch;
  the capability probe answers what the gate answers for the version it fetched. So
  \<open>7.4.2\<close> gives false, \<open>7.5.0\<close>, \<open>8.0\<close> and \<open>7.5.0-rc-1\<close> give true, and the empty string and
  \<open>not-a-version\<close> give a \<open>ParseError\<close>.
\<close>

theorem capability_gate:
  "(coerce v = None \<longleftrightarrow> (\<exists>msg. fst (versionGate (Some v)) = Inl (ParseError msg)))
   \<and> (\<forall>sv. coerce v = Some sv \<longrightarrow>
         fst (versionGate (Some v)) =
           Inr (7 < major sv \<or> (major sv = 7 \<and> (5 < minor sv \<or> (minor sv = 5 \<and> 0 \<le> patch sv)))))
   \<and> (fst (fetchGradleVersion e u p) = Inr (Some v) \<longrightarrow>
         fst (singlePropertySupport e u p) = fst (versionGate (Some v)))
   \<and> coerce ''7.4.2'' = Some \<lparr>major = 7, minor = 4, patch = 2\<rparr>
   \<and> fst (versionGate (Some ''7.4.2'')) = Inr False
   \<and> coerce ''7.5.0'' = Some \<lparr>major = 7, minor = 5, patch = 0\<rparr>
   \<and> fst (versionGate (Some ''7.5.0'')) = Inr True
   \<and> coerce ''8.0'' = Some \<lparr>major = 8, minor = 0, patch = 0\<rparr>
   \<and> fst (versionGate (Some ''8.0'')) = Inr True
   \<and> coerce ''7.5.0-rc-1'' = Some \<lparr>major = 7, minor = 5, patch = 0\<rparr>
   \<and> fst (versionGate (Some ''7.5.0-rc-1'')) = Inr True
   \<and> fst (versionGate (Some [])) = Inl (ParseError ''Failed to parse gradle version: '')
   \<and> fst (versionGate (Some ''not-a-version''))
        = Inl (ParseError ''Failed to parse gradle version: not-a-version'')"
proof -
  have gate: "fst (versionGate (Some v)) =
      (case coerce v of
         None \<Rightarrow> Inl (ParseError (''Failed to parse gradle version: '' @ v))
       | Some sv \<Rightarrow> Inr (satisfies_gte sv threshold))"
    by (simp add: versionGate_def template_def split: option.splits)
  have 1: "coerce v = None \<longleftrightarrow> (\<exists>msg. fst (versionGate (Some v)) = Inl (ParseError msg))"
    by (simp add: gate split: option.splits)
  have 2: "\<forall>sv. coerce v = Some sv \<longrightarrow>
         fst (versionGate (Some v)) =
           Inr (7 < major sv \<or> (major sv = 7 \<and> (5 < minor sv \<or> (minor sv = 5 \<and> 0 \<le> patch sv))))"
    by (simp add: gate compareMain_threshold)
  have 3: "fst (fetchGradleVersion e u p) = Inr (Some v) \<longrightarrow>
         fst (singlePropertySupport e u p) = fst (versionGate (Some v))"
    by (cases "fetchGradleVersion e u p")
       (simp add: singlePropertySupport_def split: prod.splits)
  have 4: "coerce ''7.4.2'' = Some \<lparr>major = 7, minor = 4, patch = 2\<rparr>"
    by (simp add: run_defs)
  have 5: "coerce ''7.5.0'' = Some \<lparr>major = 7, minor = 5, patch = 0\<rparr>"
    by (simp add: run_defs)
  have 6: "coerce ''8.0'' = Some \<lparr>major = 8, minor = 0, patch = 0\<rparr>"
    by (simp add: run_defs)
  have 7: "coerce ''7.5.0-rc-1'' = Some \<lparr>major = 7, minor = 5, patch = 0\<rparr>"
    by (simp add: run_defs)
  have 8: "coerce [] = None"
    by (simp add: run_defs)
  have 9: "coerce ''not-a-version'' = None"
    by (simp add: run_defs)
  have g: "\<And>w. fst (versionGate (Some w)) =
      (case coerce w of
         None \<Rightarrow> Inl (ParseError (''Failed to parse gradle version: '' @ w))
       | Some sv \<Rightarrow> Inr (satisfies_gte sv threshold))"
    by (simp add: versionGate_def template_def split: option.splits)
  have 10: "fst (versionGate (Some ''7.4.2'')) = Inr False"
    by (simp add: g 4 compareMain_threshold)
  have 11: "fst (versionGate (Some ''7.5.0'')) = Inr True"
    by (simp add: g 5 compareMain_threshold)
  have 12: "fst (versionGate (Some ''8.0'')) = Inr True"
    by (simp add: g 6 compareMain_threshold)
  have 13: "fst (versionGate (Some ''7.5.0-rc-1'')) = Inr True"
    by (simp add: g 7 compareMain_threshold)
  have 14: "fst (versionGate (Some [])) = Inl (ParseError ''Failed to parse gradle version: '')"
    by (simp add: g 8)
  have 15: "fst (versionGate (Some ''not-a-version''))
        = Inl (ParseError ''Failed to parse gradle version: not-a-version'')"
    by (simp add: g 9)
  show ?thesis
    using 1 2 3 4 5 6 7 10 11 12 13 14 15 by blast
qed

theorem capability_gate_witness:
  "coerce ''7.4.2'' = Some \<lparr>major = 7, minor = 4, patch = 2\<rparr>
   \<and> fst (versionGate (Some ''7.4.2'')) = Inr False
   \<and> fst (fetchGradleVersion (gradle_env ''7.4.2'' (prints [])) False ''.'') = Inr (Some ''7.4.2'')
   \<and> fst (singlePropertySupport (gradle_env ''7.4.2'' (prints [])) False ''.'') = Inr False
   \<and> coerce ''not-a-version'' = None
   \<and> (\<exists>msg. fst (versionGate (Some ''not-a-version'')) = Inl (ParseError msg))"
proof -
  note t = capability_gate[of "''7.4.2''" "gradle_env ''7.4.2'' (prints [])" False "''.''"]
  note n = capability_gate[of "''not-a-version''" "gradle_env ''7.4.2'' (prints [])" False "''.''"]
  have f: "fst (fetchGradleVersion (gradle_env ''7.4.2'' (prints [])) False ''.'') = Inr (Some ''7.4.2'')"
    by (simp add: run_defs)
  have c: "coerce ''7.4.2'' = Some \<lparr>major = 7, minor = 4, patch = 2\<rparr>"
    using t by blast
  have g: "fst (versionGate (Some ''7.4.2'')) = Inr False"
    using t[THEN conjunct2, THEN conjunct1, THEN spec, of "\<lparr>major = 7, minor = 4, patch = 2\<rparr>"] c
    by simp
  have s: "fst (singlePropertySupport (gradle_env ''7.4.2'' (prints [])) False ''.'') = Inr False"
    using t[THEN conjunct2, THEN conjunct2, THEN conjunct1] f g by simp
  have x: "coerce ''not-a-version'' = None"
    by (simp add: run_defs)
  have y: "\<exists>msg. fst (versionGate (Some ''not-a-version'')) = Inl (ParseError msg)"
    using n[THEN conjunct1] x by blast
  show ?thesis using c g f s x y by blast
qed

section \<open>What a query answers\<close>

lemma group2_cases:
  assumes "map_option (\<lambda>g. g 2) r = map_option Some x"
  shows "(case r of None \<Rightarrow> None | Some m \<Rightarrow> m 2) = x" and "r = None \<longleftrightarrow> x = None"
  using assms by (cases r; cases x; simp)+

lemma version_result:
  assumes "exitCode (answer e u [''--version''] p) = 0"
  shows "fst (fetchGradleVersion e u p) =
     (case first_labelled ''-\<newline>Gradle '' ''\<newline>-'' (stdout (answer e u [''--version''] p)) of
        None \<Rightarrow> Inl (ParseError ''Failed to extract gradle version'')
      | Some v \<Rightarrow> Inr (Some v))"
proof -
  let ?out = "stdout (answer e u [''--version''] p)"
  note m = version_match[of ?out]
  show ?thesis
  proof (cases "str_match ?out version_regex")
    case None
    then have "first_labelled ''-\<newline>Gradle '' ''\<newline>-'' ?out = None" using m by simp
    then show ?thesis using None assms by (simp add: fetchGradleVersion_ran)
  next
    case (Some g)
    then obtain w where w: "first_labelled ''-\<newline>Gradle '' ''\<newline>-'' ?out = Some w" "g 2 = Some w"
      using m by (cases "first_labelled ''-\<newline>Gradle '' ''\<newline>-'' ?out") auto
    then show ?thesis using Some assms by (simp add: fetchGradleVersion_ran)
  qed
qed

lemma property_result:
  assumes "fst (singlePropertySupport e u p) = Inr b"
      and "exitCode (answer e u (propertiesArgs m b property) p) = 0"
  shows "fst (retrieveGradleProperty e u p m property) =
     Inr (case matchProperty b property (stdout (answer e u (propertiesArgs m b property) p)) of
            None \<Rightarrow> None | Some matched \<Rightarrow> matched 2)"
  using assms by (simp add: retrieveGradleProperty_probed Let_def split: option.splits)

lemma single_mode_value:
  "(case matchProperty True property out of None \<Rightarrow> None | Some matched \<Rightarrow> matched 2) =
     first_labelled (property @ '': '') ''\<newline>'' out"
  using group2_cases(1)[OF property_match[of out property]] by (simp add: matchProperty_def)



lemma line_unmatched:
  "str_match l (property_line_regex property) = None \<longleftrightarrow>
     first_labelled (property @ '': '') [] l = None"
  using group2_cases(2)[OF property_line_match[of l property]] .

lemma find_first_value:
  assumes "\<forall>l \<in> set before. h l = None" and "h l = Some v"
  shows "(case List.find (\<lambda>x. x \<noteq> None) (map h (before @ l # after)) of
            None \<Rightarrow> None | Some x \<Rightarrow> x) = Some v"
  using assms by (induction before) simp_all

lemma find_none_value:
  assumes "\<forall>l \<in> set ls. h l = None"
  shows "(case List.find (\<lambda>x. x \<noteq> None) (map h ls) of None \<Rightarrow> None | Some x \<Rightarrow> x) = None"
  using assms by (induction ls) simp_all

lemma plain_name_no_newline:
  assumes "plain_name property"
  shows "CHR 0x0A \<notin> set (property @ '': '')"
proof
  assume "CHR 0x0A \<in> set (property @ '': '')"
  then have "CHR 0x0A \<in> set property" by simp
  then have "CHR 0x0A \<in> set ''abcdefghijklmnopqrstuvwxyzABCDEFGHIJKLMNOPQRSTUVWXYZ0123456789_''"
    using assms unfolding plain_name_def by blast
  then show False by simp
qed

text \<open>
  C2, as the claim states it, fails: the banner is not matched strictly. A single dash at
  the end of the line before and at the start of the line after is enough, whatever else
  these lines hold, and whatever follows \<open>Gradle\<close> and a space is taken for the version:
  neither output below has the documented shape, and both yield a version.
\<close>

theorem loose_banner_yields_version:
  "\<not> spec_banner_shape ''x-\<newline>Gradle 7.6\<newline>-y''
   \<and> fst (fetchGradleVersion (const_env (prints ''x-\<newline>Gradle 7.6\<newline>-y'')) False ''.'')
        = Inr (Some ''7.6'')
   \<and> \<not> spec_banner_shape ''Usage-\<newline>Gradle is not installed\<newline>-h for help''
   \<and> fst (fetchGradleVersion
            (const_env (prints ''Usage-\<newline>Gradle is not installed\<newline>-h for help'')) False ''.'')
        = Inr (Some ''is not installed'')"
  by (simp add: run_defs spec_banner_shape_def dashes_def)

text \<open>
  C2, amended: when the version command exits with 0, \<open>probeVersion\<close> returns \<open>v\<close> exactly
  when \<open>v\<close> is the non-empty text without line terminator found at the first place of the
  output where a dash, a line feed, \<open>Gradle\<close> and a space, \<open>v\<close>, a line feed and a dash
  follow one another; when the output has no such place it fails with a \<open>ParseError\<close>.
  The banner \<open>------ / Gradle 7.6 / ------\<close> gives exactly \<open>7.6\<close>, and the banner without
  its closing dashed line gives a \<open>ParseError\<close>.
\<close>

theorem banner_first_occurrence:
  "(exitCode (answer e u [''--version''] p) = 0 \<longrightarrow>
      (fst (fetchGradleVersion e u p) = Inr (Some v) \<longleftrightarrow>
         (\<exists>pre. occurs ''-\<newline>Gradle '' ''\<newline>-'' (stdout (answer e u [''--version''] p)) pre v
            \<and> (\<forall>pre' v'. occurs ''-\<newline>Gradle '' ''\<newline>-'' (stdout (answer e u [''--version''] p)) pre' v'
                  \<longrightarrow> length pre \<le> length pre')))
      \<and> (fst (fetchGradleVersion e u p) = Inl (ParseError ''Failed to extract gradle version'') \<longleftrightarrow>
           (\<forall>pre v'. \<not> occurs ''-\<newline>Gradle '' ''\<newline>-'' (stdout (answer e u [''--version''] p)) pre v')))
   \<and> fst (fetchGradleVersion (const_env (prints ''------\<newline>Gradle 7.6\<newline>------\<newline>'')) u p)
        = Inr (Some ''7.6'')
   \<and> fst (fetchGradleVersion (const_env (prints ''------\<newline>Gradle 7.6\<newline>'')) u p)
        = Inl (ParseError ''Failed to extract gradle version'')"
proof -
  let ?out = "stdout (answer e u [''--version''] p)"
  let ?f = "first_labelled ''-\<newline>Gradle '' ''\<newline>-'' ?out"
  have lf: "line_terminator (CHR 0x0A)" by (rule lf_terminator)
  have a: "fst (fetchGradleVersion e u p) = Inr (Some v) \<longleftrightarrow>
         (\<exists>pre. occurs ''-\<newline>Gradle '' ''\<newline>-'' ?out pre v
            \<and> (\<forall>pre' v'. occurs ''-\<newline>Gradle '' ''\<newline>-'' ?out pre' v'
                  \<longrightarrow> length pre \<le> length pre'))"
    if "exitCode (answer e u [''--version''] p) = 0"
  proof -
    have "fst (fetchGradleVersion e u p) = Inr (Some v) \<longleftrightarrow> ?f = Some v"
      by (simp add: version_result[OF that] split: option.splits)
    then show ?thesis by (simp only: first_labelled_occurs[OF lf])
  qed
  have b: "fst (fetchGradleVersion e u p) = Inl (ParseError ''Failed to extract gradle version'') \<longleftrightarrow>
           (\<forall>pre v'. \<not> occurs ''-\<newline>Gradle '' ''\<newline>-'' ?out pre v')"
    if "exitCode (answer e u [''--version''] p) = 0"
  proof -
    have "fst (fetchGradleVersion e u p) = Inl (ParseError ''Failed to extract gradle version'')
        \<longleftrightarrow> ?f = None"
      by (simp add: version_result[OF that] split: option.splits)
    then show ?thesis by (simp only: first_labelled_no_occurs[OF lf])
  qed
  have c: "fst (fetchGradleVersion (const_env (prints ''------\<newline>Gradle 7.6\<newline>------\<newline>'')) u p)
        = Inr (Some ''7.6'')"
    by (simp add: run_defs)
  have d: "fst (fetchGradleVersion (const_env (prints ''------\<newline>Gradle 7.6\<newline>'')) u p)
        = Inl (ParseError ''Failed to extract gradle version'')"
    by (simp add: run_defs)
  show ?thesis using a b c d by blast
qed

theorem banner_first_occurrence_witness:
  "exitCode (answer (const_env (prints ''------\<newline>Gradle 7.6\<newline>------\<newline>'')) False [''--version''] ''.'') = 0
   \<and> fst (fetchGradleVersion (const_env (prints ''------\<newline>Gradle 7.6\<newline>------\<newline>'')) False ''.'')
        = Inr (Some ''7.6'')
   \<and> (\<exists>pre. occurs ''-\<newline>Gradle '' ''\<newline>-''
        (stdout (answer (const_env (prints ''------\<newline>Gradle 7.6\<newline>------\<newline>'')) False [''--version''] ''.''))
        pre ''7.6'')"
proof -
  let ?e = "const_env (prints ''------\<newline>Gradle 7.6\<newline>------\<newline>'')"
  note t = banner_first_occurrence[of ?e False "''.''" "''7.6''"]
  have x: "exitCode (answer ?e False [''--version''] ''.'') = 0"
    by (simp add: answer_def const_env_def prints_def)
  have r: "fst (fetchGradleVersion ?e False ''.'') = Inr (Some ''7.6'')"
    using t by blast
  have "\<exists>pre. occurs ''-\<newline>Gradle '' ''\<newline>-'' (stdout (answer ?e False [''--version''] ''.'')) pre ''7.6''
            \<and> (\<forall>pre' v'. occurs ''-\<newline>Gradle '' ''\<newline>-'' (stdout (answer ?e False [''--version''] ''.'')) pre' v'
                  \<longrightarrow> length pre \<le> length pre')"
    using t[THEN conjunct1] x r by blast
  then show ?thesis using x r by blast
qed

text \<open>
  C3: the claim describes what the query is meant to return, everything after the label
  up to the end of the line, and the code misses it when the line does not end with a
  line feed right after the value. With a Gradle that supports single properties, the
  line \<open>buildFile: /a/b/c.gradle\<close> ended by carriage return and line feed, or left
  without line end as the last line, gives the absent value, because the pattern asks
  for a line feed directly after the value; the scan line by line of the other mode
  returns \<open>/a/b/c.gradle\<close> on the same two outputs. On the output ended by a line feed
  the query returns \<open>/a/b/c.gradle\<close> as claimed.
\<close>

theorem single_property_mode_misses_line_end:
  "fst (singlePropertySupport
         (gradle_env ''7.6'' (prints (''buildFile: /a/b/c.gradle'' @ [CHR 0x0D, CHR 0x0A]))) False ''.'')
     = Inr True
   \<and> fst (retrieveGradleProperty
         (gradle_env ''7.6'' (prints (''buildFile: /a/b/c.gradle'' @ [CHR 0x0D, CHR 0x0A])))
         False ''.'' '':'' ''buildFile'') = Inr None
   \<and> fst (retrieveGradleProperty
         (gradle_env ''7.4.2'' (prints (''buildFile: /a/b/c.gradle'' @ [CHR 0x0D, CHR 0x0A])))
         False ''.'' '':'' ''buildFile'') = Inr (Some ''/a/b/c.gradle'')
   \<and> fst (retrieveGradleProperty
         (gradle_env ''7.6'' (prints ''buildFile: /a/b/c.gradle''))
         False ''.'' '':'' ''buildFile'') = Inr None
   \<and> fst (retrieveGradleProperty
         (gradle_env ''7.4.2'' (prints ''buildFile: /a/b/c.gradle''))
         False ''.'' '':'' ''buildFile'') = Inr (Some ''/a/b/c.gradle'')
   \<and> fst (retrieveGradleProperty
         (gradle_env ''7.6'' (prints ''buildFile: /a/b/c.gradle\<newline>''))
         False ''.'' '':'' ''buildFile'') = Inr (Some ''/a/b/c.gradle'')"
  by (simp add: run_defs)

theorem single_property_mode_misses_line_end_witness:
  "fst (retrieveGradleProperty
         (gradle_env ''7.6'' (prints (''buildFile: /a/b/c.gradle'' @ [CHR 0x0D, CHR 0x0A])))
         False ''.'' '':'' ''buildFile'') = Inr None
   \<and> fst (retrieveGradleProperty
         (gradle_env ''7.4.2'' (prints (''buildFile: /a/b/c.gradle'' @ [CHR 0x0D, CHR 0x0A])))
         False ''.'' '':'' ''buildFile'') = Inr (Some ''/a/b/c.gradle'')"
  using single_property_mode_misses_line_end by blast

text \<open>
  What the single-property pattern answers in general: with a Gradle that supports single
  properties, and a property command that exits with 0, the query returns \<open>v\<close> exactly
  when \<open>v\<close> is the non-empty text without line terminator found at the first place of the
  output where the label (the property name, a colon and a space), \<open>v\<close> and a line feed
  follow one another; the label may come after any text.
\<close>

theorem single_property_pattern:
  "(plain_name property
      \<and> fst (singlePropertySupport e u p) = Inr True
      \<and> exitCode (answer e u [verifyModule m @ '':properties'', ''-q'', ''--property'', property] p) = 0 \<longrightarrow>
      (fst (retrieveGradleProperty e u p m property) = Inr (Some v) \<longleftrightarrow>
         (\<exists>pre. occurs (property @ '': '') ''\<newline>''
                   (stdout (answer e u [verifyModule m @ '':properties'', ''-q'', ''--property'', property] p))
                   pre v
            \<and> (\<forall>pre' v'. occurs (property @ '': '') ''\<newline>''
                   (stdout (answer e u [verifyModule m @ '':properties'', ''-q'', ''--property'', property] p))
                   pre' v' \<longrightarrow> length pre \<le> length pre'))))
   \<and> fst (retrieveGradleProperty (gradle_env ''7.6'' (prints ''buildFile: /a/b/c.gradle\<newline>''))
            u p m ''buildFile'') = Inr (Some ''/a/b/c.gradle'')"
proof -
  let ?as = "[verifyModule m @ '':properties'', ''-q'', ''--property'', property]"
  have args: "propertiesArgs m True property = ?as" by (simp add: propertiesArgs_def)
  have a: "fst (retrieveGradleProperty e u p m property) = Inr (Some v) \<longleftrightarrow>
         (\<exists>pre. occurs (property @ '': '') ''\<newline>'' (stdout (answer e u ?as p)) pre v
            \<and> (\<forall>pre' v'. occurs (property @ '': '') ''\<newline>'' (stdout (answer e u ?as p)) pre' v'
                  \<longrightarrow> length pre \<le> length pre'))"
    if h: "fst (singlePropertySupport e u p) = Inr True" "exitCode (answer e u ?as p) = 0"
  proof -
    have "fst (retrieveGradleProperty e u p m property) =
        Inr (first_labelled (property @ '': '') ''\<newline>'' (stdout (answer e u ?as p)))"
      using property_result[of e u p True m property] h
      by (simp only: args single_mode_value)
    then have "fst (retrieveGradleProperty e u p m property) = Inr (Some v) \<longleftrightarrow>
        first_labelled (property @ '': '') ''\<newline>'' (stdout (answer e u ?as p)) = Some v"
      by simp
    then show ?thesis by (simp only: first_labelled_occurs[OF lf_terminator])
  qed
  have b: "fst (retrieveGradleProperty (gradle_env ''7.6'' (prints ''buildFile: /a/b/c.gradle\<newline>''))
            u p m ''buildFile'') = Inr (Some ''/a/b/c.gradle'')"
    by (simp add: run_defs)
  show ?thesis using a b by blast
qed

theorem single_property_pattern_example:
  "plain_name ''buildFile''
   \<and> fst (singlePropertySupport (gradle_env ''7.6'' (prints ''> Task\<newline>buildFile: /a/b/c.gradle\<newline>'')) False ''.'')
        = Inr True
   \<and> exitCode (answer (gradle_env ''7.6'' (prints ''> Task\<newline>buildFile: /a/b/c.gradle\<newline>'')) False
        [verifyModule ''app'' @ '':properties'', ''-q'', ''--property'', ''buildFile''] ''.'') = 0
   \<and> fst (retrieveGradleProperty (gradle_env ''7.6'' (prints ''> Task\<newline>buildFile: /a/b/c.gradle\<newline>''))
        False ''.'' ''app'' ''buildFile'') = Inr (Some ''/a/b/c.gradle'')
   \<and> (\<exists>pre. occurs ''buildFile: '' ''\<newline>''
         (stdout (answer (gradle_env ''7.6'' (prints ''> Task\<newline>buildFile: /a/b/c.gradle\<newline>'')) False
            [verifyModule ''app'' @ '':properties'', ''-q'', ''--property'', ''buildFile''] ''.''))
         pre ''/a/b/c.gradle'')"
proof -
  let ?e = "gradle_env ''7.6'' (prints ''> Task\<newline>buildFile: /a/b/c.gradle\<newline>'')"
  let ?as = "[verifyModule ''app'' @ '':properties'', ''-q'', ''--property'', ''buildFile'']"
  note t = single_property_pattern[of "''buildFile''" ?e False "''.''" "''app''" "''/a/b/c.gradle''",
      THEN conjunct1]
  have n: "plain_name ''buildFile''" by (simp add: plain_name_def)
  have s: "fst (singlePropertySupport ?e False ''.'') = Inr True" by (simp add: run_defs)
  have x: "exitCode (answer ?e False ?as ''.'') = 0" by (simp add: run_defs)
  have r: "fst (retrieveGradleProperty ?e False ''.'' ''app'' ''buildFile'') = Inr (Some ''/a/b/c.gradle'')"
    by (simp add: run_defs)
  have "\<exists>pre. occurs (''buildFile'' @ '': '') ''\<newline>'' (stdout (answer ?e False ?as ''.'')) pre ''/a/b/c.gradle''
      \<and> (\<forall>pre' v'. occurs (''buildFile'' @ '': '') ''\<newline>'' (stdout (answer ?e False ?as ''.'')) pre' v'
            \<longrightarrow> length pre \<le> length pre')"
    using t n s x r by blast
  then have "\<exists>pre. occurs ''buildFile: '' ''\<newline>'' (stdout (answer ?e False ?as ''.'')) pre ''/a/b/c.gradle''"
    by auto
  then show ?thesis using n s x r by blast
qed












lemma matchProperty_None:
  assumes pn: "plain_name property"
      and no: "\<forall>l \<in> set (split_nl out). str_match l (property_line_regex property) = None"
  shows "matchProperty b property out = None"
proof (cases b)
  case False
  have "List.find (\<lambda>it. \<not> Option.is_none it)
          (map (\<lambda>it. str_match it (property_line_regex property)) (split_nl out)) = None"
    using no by (simp add: find_None_iff)
  then show ?thesis using False by (simp add: matchProperty_def)
next
  case True
  let ?l = "property @ '': ''"
  have lf: "CHR 0x0A \<notin> set ?l" using pn by (rule plain_name_no_newline)
  have "first_labelled ?l ''\<newline>'' out = None"
  proof (cases "first_labelled ?l ''\<newline>'' out")
    case None
    then show ?thesis .
  next
    case (Some v)
    then obtain pre where "occurs ?l ''\<newline>'' out pre v"
      unfolding first_labelled_occurs[OF lf_terminator] by blast
    then obtain rest where v: "v \<noteq> []" "\<forall>x \<in> set v. \<not> line_terminator x"
      and out: "out = pre @ (?l @ v) @ CHR 0x0A # rest"
      by (auto simp: occurs_def)
    have "CHR 0x0A \<notin> set (?l @ v)" using lf v(2) by (auto simp: line_terminator_def)
    then obtain a where a: "a @ ?l @ v \<in> set (split_nl out)"
      using split_nl_mem[of "?l @ v" pre rest] out by auto
    then have "str_match (a @ ?l @ v) (property_line_regex property) = None" using no by blast
    then have "first_labelled ?l [] (a @ ?l @ v) = None" by (simp only: line_unmatched)
    then have "labelled_at ?l [] (drop (length a) (a @ ?l @ v)) = None"
      unfolding first_labelled_None by blast
    moreover have "labelled_at ?l [] (?l @ v @ []) = Some v"
      using v by (intro labelled_at_endI) simp_all
    ultimately show ?thesis by simp
  qed
  then have "str_match out (property_regex property) = None"
    using group2_cases(2)[OF property_match[of out property]] by simp
  then show ?thesis using True by (simp add: matchProperty_def)
qed

text \<open>
  C6: when the property command exits with 0 and no line of its output matches the
  pattern of the property, the query returns the absent value and raises no error, with
  a Gradle that supports single properties and with one that does not; the only trace
  of the miss is the warning written last.
\<close>

theorem absent_property_is_no_error:
  "plain_name property
     \<and> fst (singlePropertySupport e u p) = Inr b
     \<and> exitCode (answer e u ([verifyModule m @ '':properties'', ''-q'']
                              @ (if b then [''--property'', property] else [])) p) = 0
     \<and> (\<forall>l \<in> set (split_nl (stdout (answer e u ([verifyModule m @ '':properties'', ''-q'']
                              @ (if b then [''--property'', property] else [])) p))).
           str_match l (property_line_regex property) = None) \<longrightarrow>
   fst (retrieveGradleProperty e u p m property) = Inr None
     \<and> last (snd (retrieveGradleProperty e u p m property)) =
          Warning (''Failed to retrieve the '' @ [CHR 0x27] @ property @ [CHR 0x27] @ '' for ''
                    @ [CHR 0x27] @ m @ [CHR 0x27])"
proof (intro impI, elim conjE)
  let ?as = "[verifyModule m @ '':properties'', ''-q''] @ (if b then [''--property'', property] else [])"
  assume pn: "plain_name property"
    and s: "fst (singlePropertySupport e u p) = Inr b"
    and x: "exitCode (answer e u ?as p) = 0"
    and no: "\<forall>l \<in> set (split_nl (stdout (answer e u ?as p))).
               str_match l (property_line_regex property) = None"
  have args: "propertiesArgs m b property = ?as" by (simp add: propertiesArgs_def)
  have "matchProperty b property (stdout (answer e u ?as p)) = None"
    using pn no by (rule matchProperty_None)
  then show "fst (retrieveGradleProperty e u p m property) = Inr None
     \<and> last (snd (retrieveGradleProperty e u p m property)) =
          Warning (''Failed to retrieve the '' @ [CHR 0x27] @ property @ [CHR 0x27] @ '' for ''
                    @ [CHR 0x27] @ m @ [CHR 0x27])"
    using x by (simp add: retrieveGradleProperty_probed[OF s] args Let_def)
qed

theorem absent_property_is_no_error_witness:
  "plain_name ''buildFile''
   \<and> fst (singlePropertySupport (gradle_env ''7.6'' (prints ''name: root\<newline>'')) False ''.'') = Inr True
   \<and> exitCode (answer (gradle_env ''7.6'' (prints ''name: root\<newline>'')) False
        [''app:properties'', ''-q'', ''--property'', ''buildFile''] ''.'') = 0
   \<and> split_nl (stdout (answer (gradle_env ''7.6'' (prints ''name: root\<newline>'')) False
        [''app:properties'', ''-q'', ''--property'', ''buildFile''] ''.'')) = [''name: root'', []]
   \<and> str_match ''name: root'' (property_line_regex ''buildFile'') = None
   \<and> str_match [] (property_line_regex ''buildFile'') = None
   \<and> fst (retrieveGradleProperty (gradle_env ''7.6'' (prints ''name: root\<newline>'')) False ''.''
        ''app'' ''buildFile'') = Inr None
   \<and> fst (singlePropertySupport (gradle_env ''7.4.2'' (prints ''name: root\<newline>'')) False ''.'') = Inr False
   \<and> fst (retrieveGradleProperty (gradle_env ''7.4.2'' (prints ''name: root\<newline>'')) False ''.''
        ''app'' ''buildFile'') = Inr None"
proof -
  let ?e = "gradle_env ''7.6'' (prints ''name: root\<newline>'')"
  let ?f = "gradle_env ''7.4.2'' (prints ''name: root\<newline>'')"
  note t = absent_property_is_no_error[of "''buildFile''" ?e False "''.''" True "''app''"]
  note tf = absent_property_is_no_error[of "''buildFile''" ?f False "''.''" False "''app''"]
  have 1: "plain_name ''buildFile''" by (simp add: plain_name_def)
  have 2: "fst (singlePropertySupport ?e False ''.'') = Inr True" by (simp add: run_defs)
  have v2: "fst (singlePropertySupport ?f False ''.'') = Inr False" by (simp add: run_defs)
  have 3: "exitCode (answer ?e False [''app:properties'', ''-q'', ''--property'', ''buildFile''] ''.'') = 0"
    by (simp add: run_defs)
  have v3: "exitCode (answer ?f False [''app:properties'', ''-q''] ''.'') = 0"
    by (simp add: run_defs)
  have 4: "split_nl (stdout (answer ?e False
        [''app:properties'', ''-q'', ''--property'', ''buildFile''] ''.'')) = [''name: root'', []]"
    by (simp add: run_defs)
  have v4: "split_nl (stdout (answer ?f False [''app:properties'', ''-q''] ''.'')) = [''name: root'', []]"
    by (simp add: run_defs)
  have 5: "str_match ''name: root'' (property_line_regex ''buildFile'') = None"
    by (simp add: run_defs)
  have 6: "str_match [] (property_line_regex ''buildFile'') = None"
    by (simp add: run_defs)
  have r: "fst (retrieveGradleProperty ?e False ''.'' ''app'' ''buildFile'') = Inr None"
    using t 1 2 3 4 5 6 by (simp add: verifyModule_def)
  have rf: "fst (retrieveGradleProperty ?f False ''.'' ''app'' ''buildFile'') = Inr None"
    using tf 1 v2 v3 v4 5 6 by (simp add: verifyModule_def)
  show ?thesis using 1 2 v2 3 4 5 6 r rf by blast
qed

end
